theory Spec2Isabelle
  imports Main "HOL-Library.Char_ord" "HOL-Library.List_Lexorder" "HOL-Library.AList"
begin

section \<open>JavaScript values\<close>

text \<open>
  The request layer is generic in the data it carries (\<open>T = any\<close>), and several of its
  branches test JavaScript truthiness, so values are modelled as JSON-like JavaScript
  values. Numbers are integers (floating point is outside the model); strings are lists
  of 8-bit characters, compared by character code as the default \<open>sort\<close> compares them.
  Time (\<open>Date.now()\<close>) is an integer number of milliseconds passed to each operation.
\<close>

datatype jvalue =
    JUndefined
  | JNull
  | JBool bool
  | JNum int
  | JStr string
  | JArr "jvalue list"
  | JObj "(string \<times> jvalue) list"

text \<open>The truthiness test of \<open>if (x)\<close>, \<open>x || y\<close> and \<open>x && y\<close>.\<close>

fun truthy :: "jvalue \<Rightarrow> bool" where
  "truthy JUndefined = False"
| "truthy JNull = False"
| "truthy (JBool b) = b"
| "truthy (JNum n) = (n \<noteq> 0)"
| "truthy (JStr s) = (s \<noteq> [])"
| "truthy (JArr xs) = True"
| "truthy (JObj ps) = True"

text \<open>Number to string, as in template literals and \<open>JSON.stringify\<close>.\<close>

definition digit_char :: "int \<Rightarrow> char" where
  "digit_char d = char_of (48 + d)"

function decimal :: "int \<Rightarrow> string" where
  "decimal n = (if n < 10 then [digit_char n] else decimal (n div 10) @ [digit_char (n mod 10)])"
  by pat_completeness auto
termination
  by (relation "measure nat") auto

definition number_toString :: "int \<Rightarrow> string" where
  "number_toString i = (if i < 0 then CHR ''-'' # decimal (- i) else decimal i)"

definition join :: "string \<Rightarrow> string list \<Rightarrow> string" where
  "join sep xs = (case xs of [] \<Rightarrow> [] | y # ys \<Rightarrow> foldl (\<lambda>acc s. acc @ sep @ s) y ys)"

text \<open>
  String conversion of a value inside a template literal. An array joins the
  conversions of its elements with commas, with nothing for \<open>null\<close> and \<open>undefined\<close>.
\<close>

fun toString :: "jvalue \<Rightarrow> string"
  and toString_elems :: "jvalue list \<Rightarrow> string list" where
  "toString JUndefined = ''undefined''"
| "toString JNull = ''null''"
| "toString (JBool b) = (if b then ''true'' else ''false'')"
| "toString (JNum n) = number_toString n"
| "toString (JStr s) = s"
| "toString (JArr xs) = join '','' (toString_elems xs)"
| "toString (JObj ps) = ''[object Object]''"
| "toString_elems [] = []"
| "toString_elems (x # xs) =
     (if x = JUndefined \<or> x = JNull then [] else toString x) # toString_elems xs"

text \<open>
  \<open>JSON.stringify\<close>: strings are quoted with the JSON escapes; an \<open>undefined\<close> value
  has no serialization (\<open>None\<close>), is skipped as an object property and is written as
  \<open>null\<close> inside an array.
\<close>

definition hex_digit :: "nat \<Rightarrow> char" where
  "hex_digit d = (if d < 10 then char_of (48 + d) else char_of (87 + d))"

definition quote_char :: "char \<Rightarrow> string" where
  "quote_char c =
     (if c = CHR 0x22 then [CHR 0x5C, CHR 0x22]
      else if c = CHR 0x5C then [CHR 0x5C, CHR 0x5C]
      else if c = CHR 0x08 then [CHR 0x5C, CHR ''b'']
      else if c = CHR 0x0C then [CHR 0x5C, CHR ''f'']
      else if c = CHR 0x0A then [CHR 0x5C, CHR ''n'']
      else if c = CHR 0x0D then [CHR 0x5C, CHR ''r'']
      else if c = CHR 0x09 then [CHR 0x5C, CHR ''t'']
      else if (of_char c :: nat) < 32
        then [CHR 0x5C, CHR ''u'', CHR ''0'', CHR ''0'',
              hex_digit (of_char c div 16), hex_digit (of_char c mod 16)]
      else [c])"

definition quote :: "string \<Rightarrow> string" where
  "quote s = CHR 0x22 # concat (map quote_char s) @ [CHR 0x22]"

fun stringify :: "jvalue \<Rightarrow> string option"
  and stringify_elems :: "jvalue list \<Rightarrow> string list"
  and stringify_props :: "(string \<times> jvalue) list \<Rightarrow> string list" where
  "stringify JUndefined = None"
| "stringify JNull = Some ''null''"
| "stringify (JBool b) = Some (if b then ''true'' else ''false'')"
| "stringify (JNum n) = Some (number_toString n)"
| "stringify (JStr s) = Some (quote s)"
| "stringify (JArr xs) = Some (''['' @ join '','' (stringify_elems xs) @ '']'')"
| "stringify (JObj ps) = Some (''{'' @ join '','' (stringify_props ps) @ ''}'')"
| "stringify_elems [] = []"
| "stringify_elems (x # xs) =
     (case stringify x of None \<Rightarrow> ''null'' | Some s \<Rightarrow> s) # stringify_elems xs"
| "stringify_props [] = []"
| "stringify_props (p # ps) =
     (case stringify (snd p) of
        None \<Rightarrow> stringify_props ps
      | Some s \<Rightarrow> (quote (fst p) @ '':'' @ s) # stringify_props ps)"


section \<open>Ordinary objects\<close>

text \<open>
  An ordinary object is the list of its own properties in the order in which
  \<open>Object.keys\<close> and \<open>JSON.stringify\<close> enumerate them: array-index names first, in
  ascending numeric order, then the other names in insertion order. The assignment
  \<open>obj[k] = v\<close> keeps that order. Assigning to \<open>__proto__\<close> creates no own property.
\<close>

type_synonym jsobject = "(string \<times> jvalue) list"

definition is_digit :: "char \<Rightarrow> bool" where
  "is_digit c = (CHR ''0'' \<le> c \<and> c \<le> CHR ''9'')"

definition index_value :: "string \<Rightarrow> int" where
  "index_value s = foldl (\<lambda>n c. 10 * n + (of_char c - 48)) 0 s"

definition isArrayIndex :: "string \<Rightarrow> bool" where
  "isArrayIndex s =
     (s \<noteq> [] \<and> list_all is_digit s \<and> decimal (index_value s) = s \<and> index_value s < 4294967295)"

definition Object_keys :: "jsobject \<Rightarrow> string list" where
  "Object_keys obj = map fst obj"

definition obj_get :: "jsobject \<Rightarrow> string \<Rightarrow> jvalue" where
  "obj_get obj k = (case map_of obj k of None \<Rightarrow> JUndefined | Some v \<Rightarrow> v)"

fun insert_index :: "string \<Rightarrow> jvalue \<Rightarrow> jsobject \<Rightarrow> jsobject" where
  "insert_index k v [] = [(k, v)]"
| "insert_index k v (p # ps) =
     (if isArrayIndex (fst p) \<and> index_value (fst p) < index_value k
      then p # insert_index k v ps
      else (k, v) # p # ps)"

definition obj_set :: "jsobject \<Rightarrow> string \<Rightarrow> jvalue \<Rightarrow> jsobject" where
  "obj_set obj k v =
     (if k = ''__proto__'' then obj
      else if k \<in> set (map fst obj) then AList.update k v obj
      else if isArrayIndex k then insert_index k v obj
      else obj @ [(k, v)])"

section \<open>CacheManager\<close>

text \<open>
  The cache is a \<open>Map\<close> from keys to entries. Each method takes the cache and the
  current time and returns its result with the cache as it leaves it; \<open>get\<close> returns
  \<open>null\<close> when it finds no entry or an expired one. A TTL of \<open>None\<close> is the omitted
  argument, which defaults to five minutes.
\<close>

record cacheEntry =
  entry_data :: jvalue
  timestamp :: int
  expiresAt :: int

record cacheOptions =
  key :: string
  ttl :: "int option"
  bypass :: bool

type_synonym cacheMap = "string \<rightharpoonup> cacheEntry"

definition DEFAULT_TTL :: int where
  "DEFAULT_TTL = 5 * 60 * 1000"

definition CacheManager_get :: "string \<Rightarrow> int \<Rightarrow> cacheMap \<Rightarrow> jvalue \<times> cacheMap" where
  "CacheManager_get k now c =
     (case c k of
        None \<Rightarrow> (JNull, c)
      | Some entry \<Rightarrow>
          if expiresAt entry < now then (JNull, c(k := None))
          else (entry_data entry, c))"

definition CacheManager_set :: "string \<Rightarrow> jvalue \<Rightarrow> int option \<Rightarrow> int \<Rightarrow> cacheMap \<Rightarrow> cacheMap" where
  "CacheManager_set k d t now c =
     c(k \<mapsto> \<lparr>entry_data = d, timestamp = now,
              expiresAt = now + (case t of None \<Rightarrow> DEFAULT_TTL | Some n \<Rightarrow> n)\<rparr>)"

definition CacheManager_has :: "string \<Rightarrow> int \<Rightarrow> cacheMap \<Rightarrow> bool \<times> cacheMap" where
  "CacheManager_has k now c =
     (case c k of
        None \<Rightarrow> (False, c)
      | Some entry \<Rightarrow>
          if expiresAt entry < now then (False, c(k := None))
          else (True, c))"

definition CacheManager_delete :: "string \<Rightarrow> cacheMap \<Rightarrow> cacheMap" where
  "CacheManager_delete k c = c(k := None)"

definition CacheManager_clear :: "cacheMap \<Rightarrow> cacheMap" where
  "CacheManager_clear c = Map.empty"

definition CacheManager_clearExpired :: "int \<Rightarrow> cacheMap \<Rightarrow> cacheMap" where
  "CacheManager_clearExpired now c =
     (\<lambda>k. case c k of
            None \<Rightarrow> None
          | Some entry \<Rightarrow> if expiresAt entry < now then None else Some entry)"

definition generateKey :: "string \<Rightarrow> jsobject option \<Rightarrow> string" where
  "generateKey url params =
     (case params of
        None \<Rightarrow> url
      | Some p \<Rightarrow>
          (let sortedParams =
                 foldl (\<lambda>acc k. obj_set acc k (obj_get p k)) [] (sort (Object_keys p))
           in url @ '':'' @
              (case stringify (JObj sortedParams) of None \<Rightarrow> ''undefined'' | Some s \<Rightarrow> s)))"

section \<open>HttpClient: data\<close>

text \<open>
  \<open>RequestOptions\<close>, \<open>ApiError\<close> and \<open>ApiCallbacks\<close> as records. A callback is an
  opaque function of the caller: the record says which callbacks were supplied, and each
  invocation is recorded as a \<open>callbackEvent\<close>, in order. What the transport rejects
  with is a cancellation, an axios error (with its message and, when the server answered,
  the status and body of the response) or some other thrown value with its \<open>message\<close>.
\<close>

datatype verb = GET | POST | PUT | DELETE

fun verb_name :: "verb \<Rightarrow> string" where
  "verb_name GET = ''get''"
| "verb_name POST = ''post''"
| "verb_name PUT = ''put''"
| "verb_name DELETE = ''delete''"

record requestOptions =
  cache :: "cacheOptions option"
  requestId :: "string option"
  params :: "jsobject option"
  headers :: "string \<rightharpoonup> string"

record apiError =
  message :: jvalue
  status :: "int option"
  data :: jvalue

record apiCallbacks =
  onSuccess :: bool
  onError :: bool
  onFinally :: bool

datatype callbackEvent = OnSuccess jvalue | OnError apiError | OnFinally

datatype rejection =
    Cancel string
  | AxiosError string "(int \<times> jvalue) option"
  | OtherError jvalue

datatype response = Fulfilled jvalue | Rejected rejection

datatype thrown = Raw rejection | Normalized apiError

datatype outcome = Resolved jvalue | Thrown thrown

text \<open>
  A request method is an \<open>async\<close> function with one \<open>await\<close>: it runs up to the
  transport call, is suspended, and runs its continuation when the transport settles.
  The model has one function for each of the two segments; \<open>pendingCall\<close> holds the
  local variables that live across the \<open>await\<close>. A call either finishes in its first
  segment (\<open>Done\<close>, the cache hit) or waits for the transport (\<open>Await\<close>).
\<close>

record pendingCall =
  p_verb :: verb
  p_url :: string
  p_config :: "requestOptions option"
  p_callbacks :: "apiCallbacks option"
  p_requestId :: string
  p_source :: nat

datatype phase = Done outcome "callbackEvent list" | Await pendingCall

text \<open>
  The module state: the \<open>cancelTokens\<close> map in insertion order, with cancel token
  sources numbered in the order of their creation; the sources on which \<open>cancel\<close> was
  called, with the reason given; the \<open>isRedirecting\<close> flag; the cache; \<open>localStorage\<close>;
  and a trace of the effects on the outside world (storage removal, toasts, the
  scheduled redirect, transport calls) and of each call of \<open>clearActiveRequests\<close>.
\<close>

datatype action =
    RemoveItem string
  | ToastDismiss
  | ToastError string
  | CancelAll
  | SetTimeout string int
  | Transport verb string "jvalue option" nat

record state =
  cancelTokens :: "(string \<times> nat) list"
  cancelledSources :: "nat \<rightharpoonup> string"
  nextSource :: nat
  isRedirecting :: bool
  cacheManager :: cacheMap
  localStorage :: "string \<rightharpoonup> string"
  trace :: "action list"

section \<open>HttpClient: interceptors\<close>

text \<open>
  Reading a property \<open>v.name\<close>: a \<open>TypeError\<close> (\<open>None\<close>) on \<open>null\<close> and
  \<open>undefined\<close>, the own property of an object, \<open>undefined\<close> on any other value.
\<close>

definition get_prop :: "jvalue \<Rightarrow> string \<Rightarrow> jvalue option" where
  "get_prop v name =
     (case v of
        JUndefined \<Rightarrow> None
      | JNull \<Rightarrow> None
      | JObj ps \<Rightarrow> Some (obj_get ps name)
      | _ \<Rightarrow> Some JUndefined)"

text \<open>
  The request interceptor. \<open>JSON.parse\<close> is a parameter: \<open>None\<close> is its
  \<open>SyntaxError\<close>. Both that error and the \<open>TypeError\<close> of reading a property of
  \<open>null\<close> are caught by the interceptor's \<open>try\<close>, which returns the configuration as
  it was.
\<close>

definition request_interceptor ::
  "(string \<Rightarrow> jvalue option) \<Rightarrow> (string \<rightharpoonup> string) \<Rightarrow> (string \<rightharpoonup> string) \<Rightarrow> (string \<rightharpoonup> string)" where
  "request_interceptor JSON_parse storage hdrs =
     (case storage ''nepali_user'' of
        None \<Rightarrow> hdrs
      | Some userData \<Rightarrow>
          if userData = [] then hdrs
          else (case JSON_parse userData of
                  None \<Rightarrow> hdrs
                | Some user \<Rightarrow>
                    (case get_prop user ''token'' of
                       None \<Rightarrow> hdrs
                     | Some token \<Rightarrow>
                         if \<not> truthy token then hdrs
                         else (case get_prop user ''tokenType'' of
                                 None \<Rightarrow> hdrs
                               | Some tokenType \<Rightarrow>
                                   if truthy tokenType
                                   then hdrs(''Authorization'' \<mapsto>
                                          toString tokenType @ '' '' @ toString token)
                                   else hdrs))))"

definition default_headers :: "string \<rightharpoonup> string" where
  "default_headers =
     [''Content-Type'' \<mapsto> ''application/json'', ''Accept'' \<mapsto> ''application/json'']"

definition config_headers :: "requestOptions option \<Rightarrow> (string \<rightharpoonup> string)" where
  "config_headers config =
     (case config of None \<Rightarrow> default_headers | Some c \<Rightarrow> default_headers ++ headers c)"

definition outgoing_headers ::
  "(string \<Rightarrow> jvalue option) \<Rightarrow> pendingCall \<Rightarrow> state \<Rightarrow> (string \<rightharpoonup> string)" where
  "outgoing_headers JSON_parse p st =
     request_interceptor JSON_parse (localStorage st) (config_headers (p_config p))"

text \<open>\<open>source.cancel(reason)\<close>: the first reason given stays.\<close>

definition cancel_source :: "nat \<Rightarrow> string \<Rightarrow> (nat \<rightharpoonup> string) \<Rightarrow> (nat \<rightharpoonup> string)" where
  "cancel_source src reason cs = (case cs src of None \<Rightarrow> cs(src \<mapsto> reason) | Some r \<Rightarrow> cs)"

text \<open>The loop of \<open>clearActiveRequests\<close> over the entries of the map.\<close>

fun clear_loop :: "(string \<times> nat) list \<Rightarrow> state \<Rightarrow> state" where
  "clear_loop [] st = st"
| "clear_loop (e # es) st =
     clear_loop es
       (st\<lparr>cancelledSources :=
              cancel_source (snd e) (''Request '' @ fst e @ '' cancelled due to cleanup'')
                (cancelledSources st),
            cancelTokens := AList.delete (fst e) (cancelTokens st)\<rparr>)"

definition clearActiveRequests :: "state \<Rightarrow> state" where
  "clearActiveRequests st =
     clear_loop (cancelTokens st) (st\<lparr>trace := trace st @ [CancelAll]\<rparr>)"

text \<open>
  The rejection handler of the response interceptor. It runs to completion before any
  other code of the page, so its test of the flag and the teardown are one atomic step.
\<close>

definition response_status :: "rejection \<Rightarrow> int option" where
  "response_status err =
     (case err of AxiosError m (Some r) \<Rightarrow> Some (fst r) | _ \<Rightarrow> None)"

definition login_path :: "string option \<Rightarrow> string" where
  "login_path tenantSlug =
     (case tenantSlug of
        None \<Rightarrow> ''/''
      | Some s \<Rightarrow> if s = [] then ''/'' else ''/'' @ s @ ''/login'')"

definition token_expired_message :: string where
  "token_expired_message =
     CHR 0xF0 # CHR 0x9F # CHR 0x94 # CHR 0x92 # '' Token expired. Please login again.''"

definition response_onRejected :: "rejection \<Rightarrow> state \<Rightarrow> state" where
  "response_onRejected err st =
     (if response_status err = Some 401 \<and> \<not> isRedirecting st then
        (let st1 = st\<lparr>isRedirecting := True\<rparr>;
             st2 = st1\<lparr>localStorage := (localStorage st1)(''nepali_user'' := None),
                       trace := trace st1 @
                         [RemoveItem ''nepali_user'', ToastDismiss, ToastError token_expired_message]\<rparr>;
             tenantSlug = localStorage st2 ''nepali_app_client'';
             st3 = clearActiveRequests st2
         in st3\<lparr>trace := trace st3 @ [SetTimeout (login_path tenantSlug) 100]\<rparr>)
      else st)"

definition resetRedirectFlag :: "state \<Rightarrow> state" where
  "resetRedirectFlag st = st\<lparr>isRedirecting := False\<rparr>"

definition clearCache :: "string option \<Rightarrow> state \<Rightarrow> state" where
  "clearCache k st =
     (case k of
        None \<Rightarrow> st\<lparr>cacheManager := CacheManager_clear (cacheManager st)\<rparr>
      | Some s \<Rightarrow>
          if s = [] then st\<lparr>cacheManager := CacheManager_clear (cacheManager st)\<rparr>
          else st\<lparr>cacheManager := CacheManager_delete s (cacheManager st)\<rparr>)"

section \<open>HttpClient: the request methods\<close>

definition cancelRequest :: "string \<Rightarrow> state \<Rightarrow> state" where
  "cancelRequest rid st =
     (case map_of (cancelTokens st) rid of
        None \<Rightarrow> st
      | Some src \<Rightarrow>
          st\<lparr>cancelledSources :=
               cancel_source src (''Request '' @ rid @ '' cancelled'') (cancelledSources st),
             cancelTokens := AList.delete rid (cancelTokens st)\<rparr>)"

definition resolveRequestId :: "verb \<Rightarrow> string \<Rightarrow> requestOptions option \<Rightarrow> int \<Rightarrow> string" where
  "resolveRequestId v url config now =
     (let generated = verb_name v @ '':'' @ url @ '':'' @ number_toString now
      in case config of
           None \<Rightarrow> generated
         | Some c \<Rightarrow>
             (case requestId c of
                None \<Rightarrow> generated
              | Some r \<Rightarrow> if r = [] then generated else r))"

definition register_source :: "string \<Rightarrow> state \<Rightarrow> nat \<times> state" where
  "register_source rid st =
     (let src = nextSource st
      in (src, st\<lparr>nextSource := Suc src,
                  cancelTokens := AList.update rid src (cancelTokens st)\<rparr>))"

definition cacheRequested :: "requestOptions option \<Rightarrow> cacheOptions option" where
  "cacheRequested config =
     (case config of
        None \<Rightarrow> None
      | Some c \<Rightarrow>
          (case cache c of
             None \<Rightarrow> None
           | Some co \<Rightarrow> if bypass co then None else Some co))"

definition config_params :: "requestOptions option \<Rightarrow> jsobject option" where
  "config_params config = (case config of None \<Rightarrow> None | Some c \<Rightarrow> params c)"

definition resolveCacheKey :: "string \<Rightarrow> requestOptions option \<Rightarrow> cacheOptions \<Rightarrow> string" where
  "resolveCacheKey url config co =
     (if key co \<noteq> [] then key co else generateKey url (config_params config))"

definition call_onSuccess :: "apiCallbacks option \<Rightarrow> jvalue \<Rightarrow> callbackEvent list" where
  "call_onSuccess callbacks d =
     (case callbacks of None \<Rightarrow> [] | Some c \<Rightarrow> if onSuccess c then [OnSuccess d] else [])"

definition call_onError :: "apiCallbacks option \<Rightarrow> apiError \<Rightarrow> callbackEvent list" where
  "call_onError callbacks e =
     (case callbacks of None \<Rightarrow> [] | Some c \<Rightarrow> if onError c then [OnError e] else [])"

definition call_onFinally :: "apiCallbacks option \<Rightarrow> callbackEvent list" where
  "call_onFinally callbacks =
     (case callbacks of None \<Rightarrow> [] | Some c \<Rightarrow> if onFinally c then [OnFinally] else [])"

definition isCancel :: "rejection \<Rightarrow> bool" where
  "isCancel err = (case err of Cancel m \<Rightarrow> True | _ \<Rightarrow> False)"

definition optional_detail :: "jvalue \<Rightarrow> jvalue" where
  "optional_detail responseData =
     (case get_prop responseData ''detail'' of None \<Rightarrow> JUndefined | Some v \<Rightarrow> v)"

definition handleError :: "rejection \<Rightarrow> apiError" where
  "handleError err =
     (case err of
        AxiosError m resp \<Rightarrow>
          (let responseData = (case resp of None \<Rightarrow> JUndefined | Some r \<Rightarrow> snd r)
           in \<lparr>message =
                 (if truthy (optional_detail responseData) then optional_detail responseData
                  else if m \<noteq> [] then JStr m
                  else JStr ''An error occurred''),
               status = map_option fst resp,
               data = responseData\<rparr>)
      | OtherError m \<Rightarrow>
          \<lparr>message = (if truthy m then m else JStr ''An unknown error occurred''),
           status = None, data = JUndefined\<rparr>
      | Cancel m \<Rightarrow>
          \<lparr>message = (if m \<noteq> [] then JStr m else JStr ''An unknown error occurred''),
           status = None, data = JUndefined\<rparr>)"

text \<open>
  The request methods. \<open>post\<close>, \<open>put\<close> and \<open>delete\<close> have the same body up to the
  verb: \<open>write_begin\<close> and \<open>write_settle\<close> are that body.
\<close>

definition issue :: "pendingCall \<Rightarrow> jvalue option \<Rightarrow> state \<Rightarrow> phase \<times> state" where
  "issue p body st =
     (Await p, st\<lparr>trace := trace st @ [Transport (p_verb p) (p_url p) body (p_source p)]\<rparr>)"

definition get_begin ::
  "string \<Rightarrow> requestOptions option \<Rightarrow> apiCallbacks option \<Rightarrow> int \<Rightarrow> state \<Rightarrow> phase \<times> state" where
  "get_begin url config callbacks now st =
     (let rid = resolveRequestId GET url config now;
          st1 = cancelRequest rid st;
          (src, st2) = register_source rid st1;
          p = \<lparr>p_verb = GET, p_url = url, p_config = config, p_callbacks = callbacks,
               p_requestId = rid, p_source = src\<rparr>
      in case cacheRequested config of
           None \<Rightarrow> issue p None st2
         | Some co \<Rightarrow>
             (let cacheKey = resolveCacheKey url config co;
                  (cachedData, cm) = CacheManager_get cacheKey now (cacheManager st2);
                  st3 = st2\<lparr>cacheManager := cm\<rparr>
              in if truthy cachedData
                 then (Done (Resolved cachedData)
                         (call_onSuccess callbacks cachedData @ call_onFinally callbacks),
                       st3\<lparr>cancelTokens := AList.delete rid (cancelTokens st3)\<rparr>)
                 else issue p None st3))"

definition settle_rejected ::
  "pendingCall \<Rightarrow> rejection \<Rightarrow> state \<Rightarrow> (outcome \<times> callbackEvent list) \<times> state" where
  "settle_rejected p err st =
     (if isCancel err
      then ((Thrown (Raw err), call_onFinally (p_callbacks p)), st)
      else (let apiError = handleError err
            in ((Thrown (Normalized apiError),
                 call_onError (p_callbacks p) apiError @ call_onFinally (p_callbacks p)), st)))"

definition get_settle ::
  "pendingCall \<Rightarrow> response \<Rightarrow> int \<Rightarrow> state \<Rightarrow> (outcome \<times> callbackEvent list) \<times> state" where
  "get_settle p resp now st =
     (case resp of
        Fulfilled d \<Rightarrow>
          (let st1 = (case cacheRequested (p_config p) of
                        None \<Rightarrow> st
                      | Some co \<Rightarrow>
                          st\<lparr>cacheManager :=
                               CacheManager_set (resolveCacheKey (p_url p) (p_config p) co) d
                                 (ttl co) now (cacheManager st)\<rparr>);
               st2 = st1\<lparr>cancelTokens := AList.delete (p_requestId p) (cancelTokens st1)\<rparr>
           in ((Resolved d,
                call_onSuccess (p_callbacks p) d @ call_onFinally (p_callbacks p)), st2))
      | Rejected err \<Rightarrow> settle_rejected p err st)"

definition write_begin ::
  "verb \<Rightarrow> string \<Rightarrow> jvalue option \<Rightarrow> requestOptions option \<Rightarrow> apiCallbacks option \<Rightarrow> int \<Rightarrow>
   state \<Rightarrow> phase \<times> state" where
  "write_begin v url body config callbacks now st =
     (let rid = resolveRequestId v url config now;
          st1 = cancelRequest rid st;
          (src, st2) = register_source rid st1;
          p = \<lparr>p_verb = v, p_url = url, p_config = config, p_callbacks = callbacks,
               p_requestId = rid, p_source = src\<rparr>
      in issue p body st2)"

definition write_settle ::
  "pendingCall \<Rightarrow> response \<Rightarrow> state \<Rightarrow> (outcome \<times> callbackEvent list) \<times> state" where
  "write_settle p resp st =
     (case resp of
        Fulfilled d \<Rightarrow>
          ((Resolved d, call_onSuccess (p_callbacks p) d @ call_onFinally (p_callbacks p)),
           st\<lparr>cancelTokens := AList.delete (p_requestId p) (cancelTokens st)\<rparr>)
      | Rejected err \<Rightarrow> settle_rejected p err st)"

definition post_begin ::
  "string \<Rightarrow> jvalue \<Rightarrow> requestOptions option \<Rightarrow> apiCallbacks option \<Rightarrow> int \<Rightarrow> state \<Rightarrow> phase \<times> state" where
  "post_begin url body config callbacks now st = write_begin POST url (Some body) config callbacks now st"

definition put_begin ::
  "string \<Rightarrow> jvalue \<Rightarrow> requestOptions option \<Rightarrow> apiCallbacks option \<Rightarrow> int \<Rightarrow> state \<Rightarrow> phase \<times> state" where
  "put_begin url body config callbacks now st = write_begin PUT url (Some body) config callbacks now st"

definition delete_begin ::
  "string \<Rightarrow> requestOptions option \<Rightarrow> apiCallbacks option \<Rightarrow> int \<Rightarrow> state \<Rightarrow> phase \<times> state" where
  "delete_begin url config callbacks now st = write_begin DELETE url None config callbacks now st"

section \<open>Calls as two atomic segments\<close>

fun begin_call ::
  "verb \<Rightarrow> string \<Rightarrow> jvalue \<Rightarrow> requestOptions option \<Rightarrow> apiCallbacks option \<Rightarrow> int \<Rightarrow> state \<Rightarrow>
   phase \<times> state" where
  "begin_call GET url body config callbacks now st = get_begin url config callbacks now st"
| "begin_call POST url body config callbacks now st = post_begin url body config callbacks now st"
| "begin_call PUT url body config callbacks now st = put_begin url body config callbacks now st"
| "begin_call DELETE url body config callbacks now st = delete_begin url config callbacks now st"

definition settle_call ::
  "pendingCall \<Rightarrow> response \<Rightarrow> int \<Rightarrow> state \<Rightarrow> (outcome \<times> callbackEvent list) \<times> state" where
  "settle_call p resp now st =
     (case p_verb p of GET \<Rightarrow> get_settle p resp now st | _ \<Rightarrow> write_settle p resp st)"

definition respond ::
  "pendingCall \<Rightarrow> response \<Rightarrow> int \<Rightarrow> state \<Rightarrow> (outcome \<times> callbackEvent list) \<times> state" where
  "respond p resp now st =
     settle_call p resp now
       (case resp of Fulfilled d \<Rightarrow> st | Rejected err \<Rightarrow> response_onRejected err st)"

text \<open>
  The contract of axios cancel tokens, which the model takes from the library: a request
  whose token source has been cancelled rejects with that cancellation, whatever the
  server answers.
\<close>

definition transport_settles :: "pendingCall \<Rightarrow> response \<Rightarrow> state \<Rightarrow> response" where
  "transport_settles p server st =
     (case cancelledSources st (p_source p) of
        Some reason \<Rightarrow> Rejected (Cancel reason)
      | None \<Rightarrow> server)"

text \<open>
  The page runs one piece of code at a time, so the state changes by atomic steps: a
  call is issued (its first segment), a pending call receives its response (the response
  interceptor, then the call's continuation), or a caller invokes \<open>cancelRequest\<close>,
  \<open>clearCache\<close>, \<open>clearActiveRequests\<close> or \<open>resetRedirectFlag\<close>.
\<close>

datatype event =
    Issue verb string jvalue "requestOptions option" "apiCallbacks option" int
  | Respond pendingCall response int
  | CancelRequest string
  | ClearCache "string option"
  | ClearActiveRequests
  | ResetRedirectFlag

fun step :: "event \<Rightarrow> state \<Rightarrow> state" where
  "step (Issue v url body config callbacks now) st = snd (begin_call v url body config callbacks now st)"
| "step (Respond p resp now) st = snd (respond p resp now st)"
| "step (CancelRequest rid) st = cancelRequest rid st"
| "step (ClearCache k) st = clearCache k st"
| "step ClearActiveRequests st = clearActiveRequests st"
| "step ResetRedirectFlag st = resetRedirectFlag st"

definition run :: "event list \<Rightarrow> state \<Rightarrow> state" where
  "run evs st = fold step evs st"


section \<open>Initial state and observations\<close>

definition initial_state :: "(string \<rightharpoonup> string) \<Rightarrow> state" where
  "initial_state storage =
     \<lparr>cancelTokens = [], cancelledSources = Map.empty, nextSource = 0, isRedirecting = False,
      cacheManager = Map.empty, localStorage = storage, trace = []\<rparr>"

definition all_callbacks :: apiCallbacks where
  "all_callbacks = \<lparr>onSuccess = True, onError = True, onFinally = True\<rparr>"

fun is_redirect :: "action \<Rightarrow> bool" where
  "is_redirect (SetTimeout target delay) = True"
| "is_redirect a = False"

definition credential_removals :: "state \<Rightarrow> nat" where
  "credential_removals st = count_list (trace st) (RemoveItem ''nepali_user'')"

definition cancel_alls :: "state \<Rightarrow> nat" where
  "cancel_alls st = count_list (trace st) CancelAll"

definition scheduled_redirects :: "state \<Rightarrow> nat" where
  "scheduled_redirects st = length (filter is_redirect (trace st))"

fun unauthorized :: "event \<Rightarrow> bool" where
  "unauthorized (Respond p (Rejected err) now) = (response_status err = Some 401)"
| "unauthorized e = False"

fun dispatcher_event :: "event \<Rightarrow> bool" where
  "dispatcher_event ClearActiveRequests = False"
| "dispatcher_event ResetRedirectFlag = False"
| "dispatcher_event e = True"

text \<open>
  The registry invariant: one entry per identifier, one identifier per source, every
  registered source live (never cancelled) and already allocated, and only allocated
  sources cancelled.
\<close>

definition registry_ok :: "state \<Rightarrow> bool" where
  "registry_ok st =
     (distinct (map fst (cancelTokens st)) \<and> distinct (map snd (cancelTokens st))
      \<and> (\<forall>e \<in> set (cancelTokens st). cancelledSources st (snd e) = None \<and> snd e < nextSource st)
      \<and> (\<forall>s. cancelledSources st s \<noteq> None \<longrightarrow> s < nextSource st))"

section \<open>Response cache: expiry\<close>

lemma CacheManager_get_fresh:
  "c k = Some e \<Longrightarrow> \<not> expiresAt e < now \<Longrightarrow> CacheManager_get k now c = (entry_data e, c)"
  by (simp add: CacheManager_get_def)

lemma CacheManager_get_stale:
  "c k = Some e \<Longrightarrow> expiresAt e < now \<Longrightarrow> CacheManager_get k now c = (JNull, c(k := None))"
  by (simp add: CacheManager_get_def)

lemma CacheManager_set_lookup:
  "CacheManager_set k v (Some t) s c k = Some \<lparr>entry_data = v, timestamp = s, expiresAt = s + t\<rparr>"
  by (simp add: CacheManager_set_def)

text \<open>
  C3, as the claim states it, fails at the boundary instant: an entry stored at time 0
  with a TTL of 1000 ms is still returned by a lookup at time 1000, and it stays in the
  cache, because \<open>get\<close> tests \<open>entry.expiresAt < now\<close>.
\<close>

theorem CacheManager_get_at_expiry_counterexample:
  "fst (CacheManager_get ''/tasks/7'' 1000
          (CacheManager_set ''/tasks/7'' (JObj [(''id'', JNum 7)]) (Some 1000) 0 Map.empty))
     = JObj [(''id'', JNum 7)]
   \<and> fst (CacheManager_get ''/tasks/7'' 1000
          (CacheManager_set ''/tasks/7'' (JObj [(''id'', JNum 7)]) (Some 1000) 0 Map.empty))
     \<noteq> JNull
   \<and> snd (CacheManager_get ''/tasks/7'' 1000
          (CacheManager_set ''/tasks/7'' (JObj [(''id'', JNum 7)]) (Some 1000) 0 Map.empty))
        ''/tasks/7'' \<noteq> None"
  by (simp add: CacheManager_get_def CacheManager_set_def)

text \<open>
  C3 (amended): after \<open>set(key, value, t)\<close> at time \<open>s\<close>, a \<open>get(key)\<close> at any time up
  to and including \<open>s + t\<close> returns the value and leaves the cache as it is; a \<open>get(key)\<close>
  at any time strictly greater than \<open>s + t\<close> returns null and removes the entry from the
  cache. This holds for every TTL, in particular for every \<open>t \<ge> 0\<close>.
\<close>

theorem CacheManager_set_get_ttl:
  "(now \<le> s + t \<longrightarrow>
      CacheManager_get k now (CacheManager_set k v (Some t) s c)
        = (v, CacheManager_set k v (Some t) s c))
   \<and> (s + t < now \<longrightarrow>
      CacheManager_get k now (CacheManager_set k v (Some t) s c) = (JNull, c(k := None)))"
proof (intro conjI impI)
  assume "now \<le> s + t"
  then have "\<not> expiresAt \<lparr>entry_data = v, timestamp = s, expiresAt = s + t\<rparr> < now"
    by simp
  with CacheManager_set_lookup show
    "CacheManager_get k now (CacheManager_set k v (Some t) s c)
       = (v, CacheManager_set k v (Some t) s c)"
    using CacheManager_get_fresh by fastforce
next
  assume "s + t < now"
  then have "expiresAt \<lparr>entry_data = v, timestamp = s, expiresAt = s + t\<rparr> < now"
    by simp
  with CacheManager_set_lookup have
    "CacheManager_get k now (CacheManager_set k v (Some t) s c)
       = (JNull, (CacheManager_set k v (Some t) s c)(k := None))"
    using CacheManager_get_stale by fastforce
  then show "CacheManager_get k now (CacheManager_set k v (Some t) s c) = (JNull, c(k := None))"
    by (simp add: CacheManager_set_def)
qed

theorem CacheManager_set_get_ttl_witness:
  "fst (CacheManager_get ''/tasks/7'' 999
          (CacheManager_set ''/tasks/7'' (JObj [(''id'', JNum 7)]) (Some 1000) 0 Map.empty))
     = JObj [(''id'', JNum 7)]
   \<and> fst (CacheManager_get ''/tasks/7'' 1001
          (CacheManager_set ''/tasks/7'' (JObj [(''id'', JNum 7)]) (Some 1000) 0 Map.empty))
     = JNull
   \<and> snd (CacheManager_get ''/tasks/7'' 1001
          (CacheManager_set ''/tasks/7'' (JObj [(''id'', JNum 7)]) (Some 1000) 0 Map.empty))
        ''/tasks/7'' = None"
  using CacheManager_set_get_ttl [of 999 0 1000 "''/tasks/7''" "JObj [(''id'', JNum 7)]" Map.empty]
    CacheManager_set_get_ttl [of 1001 0 1000 "''/tasks/7''" "JObj [(''id'', JNum 7)]" Map.empty]
  by simp

section \<open>Response cache: keys\<close>

lemma sort_keys_order_independent:
  fixes p q :: jsobject
  assumes "distinct (map fst p)" "distinct (map fst q)" "set p = set q"
  shows "sort (Object_keys p) = sort (Object_keys q)"
proof -
  have "set (map fst p) = set (map fst q)"
    using assms(3) by simp
  then have "set (sort (Object_keys p)) = set (sort (Object_keys q))"
    by (simp add: Object_keys_def)
  moreover have "distinct (sort (Object_keys p))" "distinct (sort (Object_keys q))"
    using assms(1,2) by (simp_all add: Object_keys_def)
  ultimately show ?thesis
    by (intro sorted_distinct_set_unique) simp_all
qed

lemma obj_get_order_independent:
  assumes "distinct (map fst p)" "distinct (map fst q)" "set p = set q"
  shows "obj_get p = obj_get q"
proof -
  have "map_of p = map_of q"
    using assms by (simp add: map_of_inject_set)
  then show ?thesis
    by (simp add: obj_get_def fun_eq_iff)
qed

text \<open>
  C6: two parameter objects that hold the same key-value pairs, enumerated in different
  orders, give the same key for every URL, because the parameter names are sorted before
  the object is serialized; and with no parameters the key is the URL alone. The
  parameter names are the object's own property names, each occurring once; a value is
  the same in both objects when it serializes the same way (the names inside a nested
  object value are not sorted).
\<close>

theorem generateKey_order_independent:
  "(distinct (map fst p) \<and> distinct (map fst q) \<and> set p = set q
      \<longrightarrow> generateKey url (Some p) = generateKey url (Some q))
   \<and> generateKey url None = url"
proof (intro conjI impI)
  assume h: "distinct (map fst p) \<and> distinct (map fst q) \<and> set p = set q"
  then have "sort (Object_keys p) = sort (Object_keys q)" "obj_get p = obj_get q"
    using sort_keys_order_independent obj_get_order_independent by blast+
  then show "generateKey url (Some p) = generateKey url (Some q)"
    by (simp add: generateKey_def)
next
  show "generateKey url None = url"
    by (simp add: generateKey_def)
qed

theorem generateKey_order_independent_witness:
  \<open>generateKey ''/tasks'' (Some [(''page'', JNum 2), (''filter'', JStr ''open'')])
     = generateKey ''/tasks'' (Some [(''filter'', JStr ''open''), (''page'', JNum 2)])
   \<and> generateKey ''/tasks'' (Some [(''page'', JNum 2), (''filter'', JStr ''open'')])
     = ''/tasks:{"filter":"open","page":2}''
   \<and> generateKey ''/tasks'' None = ''/tasks''\<close>
proof -
  have k: \<open>generateKey ''/tasks'' (Some [(''page'', JNum 2), (''filter'', JStr ''open'')])
     = ''/tasks:{"filter":"open","page":2}''\<close>
    by code_simp
  have d: "distinct (map fst [(''page'', JNum 2), (''filter'', JStr ''open'')])
     \<and> distinct (map fst [(''filter'', JStr ''open''), (''page'', JNum 2)])
     \<and> set [(''page'', JNum 2), (''filter'', JStr ''open'')]
       = set [(''filter'', JStr ''open''), (''page'', JNum 2)]"
    by auto
  show ?thesis
    using generateKey_order_independent
      [of "[(''page'', JNum 2), (''filter'', JStr ''open'')]"
          "[(''filter'', JStr ''open''), (''page'', JNum 2)]" "''/tasks''"] d k
    by simp
qed

lemma generateKey_empty_params: "generateKey url (Some []) = url @ '':{}''"
  by (simp add: generateKey_def Object_keys_def join_def)

text \<open>
  C10: with an empty parameters object \<open>generateKey\<close> returns the URL followed by
  \<open>:{}\<close>, not the URL alone; so for every URL the key of a request with an empty
  params object differs from the key of the same request without params, and an entry
  stored under either key is never seen by a lookup under the other.
\<close>

theorem generateKey_empty_params_distinct:
  "generateKey url (Some []) = url @ '':{}''
   \<and> generateKey url (Some []) \<noteq> generateKey url None
   \<and> fst (CacheManager_get (generateKey url None) now
            (CacheManager_set (generateKey url (Some [])) v t s c))
       = fst (CacheManager_get (generateKey url None) now c)
   \<and> fst (CacheManager_get (generateKey url (Some [])) now
            (CacheManager_set (generateKey url None) v t s c))
       = fst (CacheManager_get (generateKey url (Some [])) now c)"
proof -
  have e: "generateKey url (Some []) = url @ '':{}''"
    by (rule generateKey_empty_params)
  have n: "generateKey url None = url"
    by (simp add: generateKey_def)
  have d: "url @ '':{}'' \<noteq> url"
    by simp
  show ?thesis
    unfolding e n using d
    by (auto simp: CacheManager_get_def CacheManager_set_def split: option.splits)
qed

theorem generateKey_empty_params_distinct_witness:
  "generateKey ''/tasks'' (Some []) = ''/tasks:{}''
   \<and> generateKey ''/tasks'' (Some []) \<noteq> generateKey ''/tasks'' None
   \<and> fst (CacheManager_get (generateKey ''/tasks'' None) 5
            (CacheManager_set (generateKey ''/tasks'' (Some [])) (JNum 1) None 0 Map.empty))
       = JNull"
proof -
  note t = generateKey_empty_params_distinct [of "''/tasks''" 5 "JNum 1" None 0 Map.empty]
  have a: "generateKey ''/tasks'' (Some []) = ''/tasks:{}''"
    using t by simp
  have b: "generateKey ''/tasks'' (Some []) \<noteq> generateKey ''/tasks'' None"
    using t by blast
  have "fst (CacheManager_get (generateKey ''/tasks'' None) 5
            (CacheManager_set (generateKey ''/tasks'' (Some [])) (JNum 1) None 0 Map.empty))
       = fst (CacheManager_get (generateKey ''/tasks'' None) 5 Map.empty)"
    using t by blast
  also have "\<dots> = JNull"
    by (simp add: CacheManager_get_def)
  finally show ?thesis
    using a b by blast
qed

section \<open>Completion protocol\<close>

lemma call_onFinally_supplied:
  "onFinally cbs \<Longrightarrow> call_onFinally (Some cbs) = [OnFinally]"
  by (simp add: call_onFinally_def)

lemma call_onSuccess_supplied:
  "onSuccess cbs \<Longrightarrow> call_onSuccess (Some cbs) d = [OnSuccess d]"
  by (simp add: call_onSuccess_def)

lemma call_onError_supplied:
  "onError cbs \<Longrightarrow> call_onError (Some cbs) e = [OnError e]"
  by (simp add: call_onError_def)

lemma settle_rejected_cancel:
  "settle_rejected p (Cancel m) st = ((Thrown (Raw (Cancel m)), call_onFinally (p_callbacks p)), st)"
  by (simp add: settle_rejected_def isCancel_def)

lemma settle_rejected_failure:
  "\<not> isCancel err \<Longrightarrow>
   settle_rejected p err st =
     ((Thrown (Normalized (handleError err)),
       call_onError (p_callbacks p) (handleError err) @ call_onFinally (p_callbacks p)), st)"
  by (simp add: settle_rejected_def Let_def)

lemma settle_call_rejected:
  "settle_call p (Rejected err) now st = settle_rejected p err st"
  by (cases "p_verb p") (simp_all add: settle_call_def get_settle_def write_settle_def)

lemma settle_call_fulfilled_result:
  "fst (settle_call p (Fulfilled d) now st) =
     (Resolved d, call_onSuccess (p_callbacks p) d @ call_onFinally (p_callbacks p))"
  by (cases "p_verb p") (simp_all add: settle_call_def get_settle_def write_settle_def Let_def)

lemma settle_call_events:
  assumes "p_callbacks p = Some cbs" "onSuccess cbs" "onError cbs" "onFinally cbs"
  shows "snd (fst (settle_call p resp now st)) =
     (case resp of
        Fulfilled d \<Rightarrow> [OnSuccess d, OnFinally]
      | Rejected err \<Rightarrow>
          if isCancel err then [OnFinally] else [OnError (handleError err), OnFinally])"
proof (cases resp)
  case (Fulfilled d)
  then show ?thesis
    using assms
    by (simp add: settle_call_fulfilled_result call_onSuccess_supplied call_onFinally_supplied)
next
  case (Rejected err)
  then show ?thesis
    using assms
    by (simp add: settle_call_rejected settle_rejected_def Let_def
        call_onError_supplied call_onFinally_supplied)
qed

lemma write_begin_awaits: "\<exists>p. fst (write_begin v url body config callbacks now st) = Await p"
  by (simp add: write_begin_def issue_def Let_def split: prod.splits)

lemma get_begin_done_events:
  assumes "get_begin url config callbacks now st = (Done out evs, st')"
  shows "\<exists>d. out = Resolved d \<and> truthy d
           \<and> evs = call_onSuccess callbacks d @ call_onFinally callbacks"
  using assms
  by (auto simp: get_begin_def issue_def Let_def split: prod.splits option.splits if_splits)

lemma begin_call_done_events:
  assumes "begin_call v url body config callbacks now st = (Done out evs, st')"
  shows "\<exists>d. out = Resolved d \<and> evs = call_onSuccess callbacks d @ call_onFinally callbacks"
proof (cases v)
  case GET
  then show ?thesis
    using assms get_begin_done_events by fastforce
next
  case POST
  then show ?thesis
    using assms write_begin_awaits [of POST url "Some body" config callbacks now st]
    by (auto simp: post_begin_def)
next
  case PUT
  then show ?thesis
    using assms write_begin_awaits [of PUT url "Some body" config callbacks now st]
    by (auto simp: put_begin_def)
next
  case DELETE
  then show ?thesis
    using assms write_begin_awaits [of DELETE url None config callbacks now st]
    by (auto simp: delete_begin_def)
qed

text \<open>
  C2, as the claim states it, fails for a cancelled call: the \<open>finally\<close> block of every
  request method runs on the cancellation path too, so a call that settles as Cancelled
  invokes \<open>onFinally\<close> once (and neither \<open>onSuccess\<close> nor \<open>onError\<close>).
\<close>

theorem cancelled_call_onFinally_counterexample:
  "snd (fst (settle_call
       \<lparr>p_verb = GET, p_url = ''/tasks'', p_config = None, p_callbacks = Some all_callbacks,
        p_requestId = ''list:123'', p_source = 0\<rparr>
       (Rejected (Cancel ''Request list:123 cancelled'')) 10
       (initial_state Map.empty)))
     = [OnFinally]
   \<and> count_list (snd (fst (settle_call
       \<lparr>p_verb = GET, p_url = ''/tasks'', p_config = None, p_callbacks = Some all_callbacks,
        p_requestId = ''list:123'', p_source = 0\<rparr>
       (Rejected (Cancel ''Request list:123 cancelled'')) 10
       (initial_state Map.empty)))) OnFinally \<noteq> 0"
  by (simp add: settle_call_rejected settle_rejected_cancel call_onFinally_def all_callbacks_def)

text \<open>
  C2 (amended): for every request method called with the three callbacks supplied,
  \<open>onFinally\<close> is invoked exactly once however the call settles: on a cache hit, on
  success, on a normalized error, and also when the call settles as Cancelled. On
  success (and on a cache hit) the callbacks are \<open>onSuccess\<close> then \<open>onFinally\<close>; on a
  failure they are \<open>onError\<close> then \<open>onFinally\<close>; on cancellation \<open>onFinally\<close> is the
  only callback invoked, so neither \<open>onSuccess\<close> nor \<open>onError\<close> is.
\<close>

theorem onFinally_exactly_once:
  assumes "onSuccess cbs \<and> onError cbs \<and> onFinally cbs"
  shows "(p_callbacks p = Some cbs \<longrightarrow>
            count_list (snd (fst (settle_call p resp now st))) OnFinally = 1)
     \<and> (p_callbacks p = Some cbs \<longrightarrow>
            snd (fst (settle_call p (Fulfilled d) now st)) = [OnSuccess d, OnFinally])
     \<and> (p_callbacks p = Some cbs \<and> \<not> isCancel err \<longrightarrow>
            snd (fst (settle_call p (Rejected err) now st))
              = [OnError (handleError err), OnFinally])
     \<and> (p_callbacks p = Some cbs \<longrightarrow>
            settle_call p (Rejected (Cancel m)) now st
              = ((Thrown (Raw (Cancel m)), [OnFinally]), st))
     \<and> (begin_call v url body config (Some cbs) now' st0 = (Done out evs, st1) \<longrightarrow>
            count_list evs OnFinally = 1 \<and> (\<exists>c. out = Resolved c \<and> evs = [OnSuccess c, OnFinally]))"
proof (intro conjI impI)
  assume p: "p_callbacks p = Some cbs"
  have ev: "snd (fst (settle_call p r now st)) =
     (case r of
        Fulfilled d \<Rightarrow> [OnSuccess d, OnFinally]
      | Rejected err \<Rightarrow>
          if isCancel err then [OnFinally] else [OnError (handleError err), OnFinally])" for r
    using settle_call_events [OF p] assms by blast
  show "count_list (snd (fst (settle_call p resp now st))) OnFinally = 1"
    unfolding ev by (simp split: response.splits)
  show "snd (fst (settle_call p (Fulfilled d) now st)) = [OnSuccess d, OnFinally]"
    unfolding ev by simp
  show "settle_call p (Rejected (Cancel m)) now st = ((Thrown (Raw (Cancel m)), [OnFinally]), st)"
    using p assms
    by (simp add: settle_call_rejected settle_rejected_cancel call_onFinally_supplied)
next
  assume "p_callbacks p = Some cbs \<and> \<not> isCancel err"
  then show "snd (fst (settle_call p (Rejected err) now st)) = [OnError (handleError err), OnFinally]"
    using settle_call_events [of p cbs "Rejected err" now st] assms by simp
next
  assume b: "begin_call v url body config (Some cbs) now' st0 = (Done out evs, st1)"
  then obtain c where c: "out = Resolved c"
      "evs = call_onSuccess (Some cbs) c @ call_onFinally (Some cbs)"
    using begin_call_done_events by blast
  then have e: "evs = [OnSuccess c, OnFinally]"
    using assms by (simp add: call_onSuccess_supplied call_onFinally_supplied)
  then show "count_list evs OnFinally = 1"
    by simp
  from c(1) e show "\<exists>c. out = Resolved c \<and> evs = [OnSuccess c, OnFinally]"
    by blast
qed

theorem onFinally_exactly_once_witness:
  "count_list (snd (fst (settle_call
       \<lparr>p_verb = POST, p_url = ''/tasks'', p_config = None, p_callbacks = Some all_callbacks,
        p_requestId = ''save:1'', p_source = 0\<rparr>
       (Rejected (AxiosError ''Request failed with status code 500'' (Some (500, JNull)))) 10
       (initial_state Map.empty)))) OnFinally = 1
   \<and> snd (fst (settle_call
       \<lparr>p_verb = POST, p_url = ''/tasks'', p_config = None, p_callbacks = Some all_callbacks,
        p_requestId = ''save:1'', p_source = 0\<rparr>
       (Fulfilled (JNum 1)) 10 (initial_state Map.empty))) = [OnSuccess (JNum 1), OnFinally]
   \<and> fst (fst (settle_call
       \<lparr>p_verb = POST, p_url = ''/tasks'', p_config = None, p_callbacks = Some all_callbacks,
        p_requestId = ''save:1'', p_source = 0\<rparr>
       (Rejected (Cancel ''Request save:1 cancelled'')) 10 (initial_state Map.empty)))
     = Thrown (Raw (Cancel ''Request save:1 cancelled''))
   \<and> fst (begin_call GET ''/tasks/7'' JNull
            (Some \<lparr>cache = Some \<lparr>key = ''/tasks/7'', ttl = Some 1000, bypass = False\<rparr>,
                   requestId = Some ''task:7'', params = None, headers = Map.empty\<rparr>)
            (Some all_callbacks) 500
            ((initial_state Map.empty)\<lparr>cacheManager :=
                CacheManager_set ''/tasks/7'' (JObj [(''id'', JNum 7)]) (Some 1000) 0 Map.empty\<rparr>))
        = Done (Resolved (JObj [(''id'', JNum 7)])) [OnSuccess (JObj [(''id'', JNum 7)]), OnFinally]
   \<and> count_list [OnSuccess (JObj [(''id'', JNum 7)]), OnFinally] OnFinally = 1"
proof -
  let ?p = "\<lparr>p_verb = POST, p_url = ''/tasks'', p_config = None, p_callbacks = Some all_callbacks,
        p_requestId = ''save:1'', p_source = 0\<rparr>"
  let ?e = "AxiosError ''Request failed with status code 500'' (Some (500, JNull))"
  let ?cfg = "Some \<lparr>cache = Some \<lparr>key = ''/tasks/7'', ttl = Some 1000, bypass = False\<rparr>,
                   requestId = Some ''task:7'', params = None, headers = Map.empty\<rparr>"
  let ?st = "(initial_state Map.empty)\<lparr>cacheManager :=
                CacheManager_set ''/tasks/7'' (JObj [(''id'', JNum 7)]) (Some 1000) 0 Map.empty\<rparr>"
  let ?b = "begin_call GET ''/tasks/7'' JNull ?cfg (Some all_callbacks) 500 ?st"
  let ?evs = "[OnSuccess (JObj [(''id'', JNum 7)]), OnFinally]"
  have a: "onSuccess all_callbacks \<and> onError all_callbacks \<and> onFinally all_callbacks"
    by (simp add: all_callbacks_def)
  have h: "fst ?b = Done (Resolved (JObj [(''id'', JNum 7)])) ?evs"
    by (simp add: get_begin_def resolveRequestId_def cancelRequest_def register_source_def
      cacheRequested_def resolveCacheKey_def CacheManager_get_def CacheManager_set_def
      initial_state_def all_callbacks_def call_onSuccess_def call_onFinally_def Let_def)
  then have hb: "?b = (Done (Resolved (JObj [(''id'', JNum 7)])) ?evs, snd ?b)"
    by (simp add: prod_eq_iff)
  show ?thesis
    using onFinally_exactly_once [OF a, of ?p "Rejected ?e" 10 "initial_state Map.empty"
        "JNum 1" ?e "''Request save:1 cancelled'' " GET "''/tasks/7''" JNull ?cfg 500 ?st
        "Resolved (JObj [(''id'', JNum 7)])" ?evs "snd ?b"] hb h
    by simp
qed

section \<open>Error normalization\<close>

lemma respond_rejected_result:
  "fst (respond p (Rejected err) now st) = fst (settle_rejected p err st')"
  by (simp add: respond_def settle_call_rejected settle_rejected_def Let_def)

lemma optional_detail_field:
  "map_of ps ''detail'' = Some d \<Longrightarrow> optional_detail (JObj ps) = d"
  by (simp add: optional_detail_def get_prop_def obj_get_def)

lemma optional_detail_absent:
  "(\<forall>ps. body \<noteq> JObj ps) \<or> (\<exists>ps. body = JObj ps \<and> map_of ps ''detail'' = None)
     \<Longrightarrow> optional_detail body = JUndefined"
  by (cases body) (auto simp: optional_detail_def get_prop_def obj_get_def)

text \<open>
  C7: a call that fails with an error that is not a cancellation throws the normalized
  \<open>ApiError\<close> (never the raw rejection) and, when \<open>onError\<close> is supplied, invokes it
  exactly once with that same \<open>ApiError\<close>. The \<open>ApiError\<close> carries the HTTP status and
  the response body when a response exists. Its message is the \<open>detail\<close> field of the
  response body when that field is present with a truthy value (the test the source's
  \<open>||\<close> chain applies), else the transport error's message when it is not empty, else the
  generic fallback string.
\<close>

theorem failure_normalized_to_ApiError:
  assumes "\<not> isCancel err"
  shows "fst (fst (respond p (Rejected err) now st)) = Thrown (Normalized (handleError err))
     \<and> (p_callbacks p = Some cbs \<and> onError cbs \<longrightarrow>
          snd (fst (respond p (Rejected err) now st))
            = OnError (handleError err) # call_onFinally (Some cbs)
          \<and> count_list (snd (fst (respond p (Rejected err) now st))) (OnError (handleError err)) = 1
          \<and> (\<forall>e. OnError e \<in> set (snd (fst (respond p (Rejected err) now st)))
                \<longrightarrow> e = handleError err))
     \<and> (err = AxiosError m (Some (sc, body)) \<longrightarrow>
          status (handleError err) = Some sc \<and> data (handleError err) = body)
     \<and> (err = AxiosError m (Some (sc, JObj ps)) \<and> map_of ps ''detail'' = Some d \<and> truthy d \<longrightarrow>
          message (handleError err) = d)
     \<and> (err = AxiosError m (Some (sc, body)) \<and> \<not> truthy (optional_detail body) \<longrightarrow>
          message (handleError err) = (if m \<noteq> [] then JStr m else JStr ''An error occurred''))
     \<and> (err = AxiosError m None \<longrightarrow>
          status (handleError err) = None \<and> data (handleError err) = JUndefined
          \<and> message (handleError err) = (if m \<noteq> [] then JStr m else JStr ''An error occurred''))
     \<and> (err = OtherError v \<longrightarrow>
          status (handleError err) = None
          \<and> message (handleError err)
              = (if truthy v then v else JStr ''An unknown error occurred''))"
proof (intro conjI impI allI)
  have r: "fst (respond p (Rejected err) now st)
      = (Thrown (Normalized (handleError err)),
         call_onError (p_callbacks p) (handleError err) @ call_onFinally (p_callbacks p))"
    using assms respond_rejected_result [of p err now st st]
    by (simp add: settle_rejected_failure)
  show "fst (fst (respond p (Rejected err) now st)) = Thrown (Normalized (handleError err))"
    by (simp add: r)
  {
    assume h: "p_callbacks p = Some cbs \<and> onError cbs"
    then have ev: "snd (fst (respond p (Rejected err) now st))
        = OnError (handleError err) # call_onFinally (Some cbs)"
      by (simp add: r call_onError_supplied)
    then show "snd (fst (respond p (Rejected err) now st))
        = OnError (handleError err) # call_onFinally (Some cbs)" .
    show "count_list (snd (fst (respond p (Rejected err) now st))) (OnError (handleError err)) = 1"
      unfolding ev by (simp add: call_onFinally_def)
    fix e
    assume "OnError e \<in> set (snd (fst (respond p (Rejected err) now st)))"
    then show "e = handleError err"
      unfolding ev by (simp add: call_onFinally_def split: if_splits)
  }
  {
    assume "err = AxiosError m (Some (sc, body))"
    then show "status (handleError err) = Some sc" "data (handleError err) = body"
      by (simp_all add: handleError_def Let_def)
  }
  {
    assume "err = AxiosError m (Some (sc, JObj ps)) \<and> map_of ps ''detail'' = Some d \<and> truthy d"
    then show "message (handleError err) = d"
      by (simp add: handleError_def Let_def optional_detail_field)
  }
  {
    assume "err = AxiosError m (Some (sc, body)) \<and> \<not> truthy (optional_detail body)"
    then show "message (handleError err) = (if m \<noteq> [] then JStr m else JStr ''An error occurred'')"
      by (simp add: handleError_def Let_def)
  }
  {
    assume "err = AxiosError m None"
    then show "status (handleError err) = None" "data (handleError err) = JUndefined"
      "message (handleError err) = (if m \<noteq> [] then JStr m else JStr ''An error occurred'')"
      by (simp_all add: handleError_def Let_def optional_detail_def get_prop_def)
  }
  {
    assume "err = OtherError v"
    then show "status (handleError err) = None"
      "message (handleError err) = (if truthy v then v else JStr ''An unknown error occurred'')"
      by (simp_all add: handleError_def)
  }
qed

theorem failure_normalized_to_ApiError_witness:
  "fst (respond
       \<lparr>p_verb = POST, p_url = ''/tasks'', p_config = None, p_callbacks = Some all_callbacks,
        p_requestId = ''save:1'', p_source = 0\<rparr>
       (Rejected (AxiosError ''Request failed with status code 401''
                    (Some (401, JObj [(''detail'', JStr ''token expired'')]))))
       10 (initial_state Map.empty))
     = (Thrown (Normalized
          \<lparr>message = JStr ''token expired'', status = Some 401,
           data = JObj [(''detail'', JStr ''token expired'')]\<rparr>),
        [OnError \<lparr>message = JStr ''token expired'', status = Some 401,
                  data = JObj [(''detail'', JStr ''token expired'')]\<rparr>, OnFinally])"
proof -
  let ?p = "\<lparr>p_verb = POST, p_url = ''/tasks'', p_config = None, p_callbacks = Some all_callbacks,
        p_requestId = ''save:1'', p_source = 0\<rparr>"
  let ?body = "JObj [(''detail'', JStr ''token expired'')]"
  let ?e = "AxiosError ''Request failed with status code 401'' (Some (401, ?body))"
  have n: "\<not> isCancel ?e"
    by (simp add: isCancel_def)
  note t = failure_normalized_to_ApiError [OF n, of ?p 10 "initial_state Map.empty" all_callbacks
      "''Request failed with status code 401''" 401 ?body "[(''detail'', JStr ''token expired'')]"
      "JStr ''token expired''"]
  have h: "handleError ?e = \<lparr>message = JStr ''token expired'', status = Some 401, data = ?body\<rparr>"
    by (simp add: handleError_def optional_detail_def get_prop_def obj_get_def Let_def)
  have o: "fst (fst (respond ?p (Rejected ?e) 10 (initial_state Map.empty)))
      = Thrown (Normalized (handleError ?e))"
    by (rule t [THEN conjunct1])
  have "p_callbacks ?p = Some all_callbacks \<and> onError all_callbacks"
    by (simp add: all_callbacks_def)
  then have c: "snd (fst (respond ?p (Rejected ?e) 10 (initial_state Map.empty)))
      = OnError (handleError ?e) # call_onFinally (Some all_callbacks)"
    using t [THEN conjunct2, THEN conjunct1] by blast
  have f: "call_onFinally (Some all_callbacks) = [OnFinally]"
    by (simp add: call_onFinally_def all_callbacks_def)
  show ?thesis
    unfolding prod_eq_iff o c h f by simp
qed

section \<open>Authentication injection\<close>

lemma request_interceptor_absent:
  "storage ''nepali_user'' = None \<Longrightarrow> request_interceptor JSON_parse storage hdrs = hdrs"
  by (simp add: request_interceptor_def)

lemma request_interceptor_malformed:
  "storage ''nepali_user'' = Some s \<Longrightarrow> JSON_parse s = None \<Longrightarrow>
   request_interceptor JSON_parse storage hdrs = hdrs"
  by (simp add: request_interceptor_def)

lemma request_interceptor_credentials:
  assumes "storage ''nepali_user'' = Some s" "s \<noteq> []" "JSON_parse s = Some (JObj user)"
    and "truthy (obj_get user ''token'')" "truthy (obj_get user ''tokenType'')"
  shows "request_interceptor JSON_parse storage hdrs =
     hdrs(''Authorization'' \<mapsto>
       toString (obj_get user ''tokenType'') @ '' '' @ toString (obj_get user ''token''))"
  using assms by (simp add: request_interceptor_def get_prop_def)

lemma request_interceptor_incomplete:
  assumes "storage ''nepali_user'' = Some s" "JSON_parse s = Some (JObj user)"
    and "\<not> truthy (obj_get user ''token'') \<or> \<not> truthy (obj_get user ''tokenType'')"
  shows "request_interceptor JSON_parse storage hdrs = hdrs"
  using assms by (auto simp: request_interceptor_def get_prop_def)

lemma request_interceptor_not_object:
  assumes "storage ''nepali_user'' = Some s" "JSON_parse s = Some user" "\<forall>ps. user \<noteq> JObj ps"
  shows "request_interceptor JSON_parse storage hdrs = hdrs"
  using assms by (cases user) (simp_all add: request_interceptor_def get_prop_def)

text \<open>
  C9: every outgoing call, whatever its method and URL (so in particular every call that
  is not the login call), passes through the request interceptor, which reads the stored
  record \<open>nepali_user\<close>. When the record parses to an object whose \<open>token\<close> and
  \<open>tokenType\<close> are both present (truthy, as \<open>user.token && user.tokenType\<close> tests them),
  the Authorization header is set to the token type, a space, and the token. When the
  record is absent or does not parse, or a token or token type is missing, the headers of
  the call are left as they were: no Authorization header is added and no error is raised.
\<close>

theorem authorization_header_injected:
  "(localStorage st ''nepali_user'' = Some s \<and> s \<noteq> [] \<and> JSON_parse s = Some (JObj user)
      \<and> truthy (obj_get user ''token'') \<and> truthy (obj_get user ''tokenType'')
     \<longrightarrow> outgoing_headers JSON_parse p st =
           (config_headers (p_config p))(''Authorization'' \<mapsto>
              toString (obj_get user ''tokenType'') @ '' '' @ toString (obj_get user ''token'')))
   \<and> (localStorage st ''nepali_user'' = Some s \<and> s \<noteq> [] \<and> JSON_parse s = Some (JObj user)
      \<and> obj_get user ''token'' = JStr token \<and> token \<noteq> []
      \<and> obj_get user ''tokenType'' = JStr tokenType \<and> tokenType \<noteq> []
     \<longrightarrow> outgoing_headers JSON_parse p st ''Authorization'' = Some (tokenType @ '' '' @ token))
   \<and> (localStorage st ''nepali_user'' = None
     \<longrightarrow> outgoing_headers JSON_parse p st = config_headers (p_config p))
   \<and> (localStorage st ''nepali_user'' = Some s \<and> JSON_parse s = None
     \<longrightarrow> outgoing_headers JSON_parse p st = config_headers (p_config p))
   \<and> (localStorage st ''nepali_user'' = Some s \<and> JSON_parse s = Some (JObj user)
      \<and> (\<not> truthy (obj_get user ''token'') \<or> \<not> truthy (obj_get user ''tokenType''))
     \<longrightarrow> outgoing_headers JSON_parse p st = config_headers (p_config p))
   \<and> (localStorage st ''nepali_user'' = Some s \<and> JSON_parse s = Some v \<and> (\<forall>ps. v \<noteq> JObj ps)
     \<longrightarrow> outgoing_headers JSON_parse p st = config_headers (p_config p))"
proof (intro conjI impI)
  assume "localStorage st ''nepali_user'' = Some s \<and> s \<noteq> [] \<and> JSON_parse s = Some (JObj user)
      \<and> truthy (obj_get user ''token'') \<and> truthy (obj_get user ''tokenType'')"
  then show "outgoing_headers JSON_parse p st =
           (config_headers (p_config p))(''Authorization'' \<mapsto>
              toString (obj_get user ''tokenType'') @ '' '' @ toString (obj_get user ''token''))"
    unfolding outgoing_headers_def
    using request_interceptor_credentials [of "localStorage st" s JSON_parse user] by simp
next
  assume h: "localStorage st ''nepali_user'' = Some s \<and> s \<noteq> [] \<and> JSON_parse s = Some (JObj user)
      \<and> obj_get user ''token'' = JStr token \<and> token \<noteq> []
      \<and> obj_get user ''tokenType'' = JStr tokenType \<and> tokenType \<noteq> []"
  then have "outgoing_headers JSON_parse p st =
           (config_headers (p_config p))(''Authorization'' \<mapsto>
              toString (obj_get user ''tokenType'') @ '' '' @ toString (obj_get user ''token''))"
    unfolding outgoing_headers_def
    using request_interceptor_credentials [of "localStorage st" s JSON_parse user] by simp
  with h show "outgoing_headers JSON_parse p st ''Authorization'' = Some (tokenType @ '' '' @ token)"
    by simp
next
  assume "localStorage st ''nepali_user'' = None"
  then show "outgoing_headers JSON_parse p st = config_headers (p_config p)"
    by (simp add: outgoing_headers_def request_interceptor_absent)
next
  assume "localStorage st ''nepali_user'' = Some s \<and> JSON_parse s = None"
  then show "outgoing_headers JSON_parse p st = config_headers (p_config p)"
    by (simp add: outgoing_headers_def request_interceptor_malformed)
next
  assume "localStorage st ''nepali_user'' = Some s \<and> JSON_parse s = Some (JObj user)
      \<and> (\<not> truthy (obj_get user ''token'') \<or> \<not> truthy (obj_get user ''tokenType''))"
  then show "outgoing_headers JSON_parse p st = config_headers (p_config p)"
    unfolding outgoing_headers_def
    using request_interceptor_incomplete [of "localStorage st" s JSON_parse user] by blast
next
  assume "localStorage st ''nepali_user'' = Some s \<and> JSON_parse s = Some v \<and> (\<forall>ps. v \<noteq> JObj ps)"
  then show "outgoing_headers JSON_parse p st = config_headers (p_config p)"
    unfolding outgoing_headers_def
    using request_interceptor_not_object [of "localStorage st" s JSON_parse v] by blast
qed

theorem authorization_header_injected_witness:
  \<open>outgoing_headers
      (\<lambda>s. if s = ''{"token":"abc","tokenType":"Bearer"}''
           then Some (JObj [(''token'', JStr ''abc''), (''tokenType'', JStr ''Bearer'')])
           else None)
      \<lparr>p_verb = GET, p_url = ''/tasks'', p_config = None, p_callbacks = None,
       p_requestId = ''list:1'', p_source = 0\<rparr>
      (initial_state [''nepali_user'' \<mapsto> ''{"token":"abc","tokenType":"Bearer"}''])
      ''Authorization'' = Some ''Bearer abc''
   \<and> outgoing_headers
      (\<lambda>s. if s = ''{"token":"abc","tokenType":"Bearer"}''
           then Some (JObj [(''token'', JStr ''abc''), (''tokenType'', JStr ''Bearer'')])
           else None)
      \<lparr>p_verb = GET, p_url = ''/tasks'', p_config = None, p_callbacks = None,
       p_requestId = ''list:1'', p_source = 0\<rparr>
      (initial_state Map.empty) ''Authorization'' = None
   \<and> outgoing_headers
      (\<lambda>s. if s = ''{"token":"abc","tokenType":"Bearer"}''
           then Some (JObj [(''token'', JStr ''abc''), (''tokenType'', JStr ''Bearer'')])
           else None)
      \<lparr>p_verb = GET, p_url = ''/tasks'', p_config = None, p_callbacks = None,
       p_requestId = ''list:1'', p_source = 0\<rparr>
      (initial_state [''nepali_user'' \<mapsto> ''{"token":''])
      ''Authorization'' = None\<close>
proof -
  let ?json = \<open>''{"token":"abc","tokenType":"Bearer"}''\<close>
  let ?user = "[(''token'', JStr ''abc''), (''tokenType'', JStr ''Bearer'')]"
  let ?parse = "\<lambda>s. if s = ?json then Some (JObj ?user) else None"
  let ?p = "\<lparr>p_verb = GET, p_url = ''/tasks'', p_config = None, p_callbacks = None,
       p_requestId = ''list:1'', p_source = 0\<rparr>"
  let ?bad = \<open>''{"token":''\<close>
  have n: "config_headers (p_config ?p) ''Authorization'' = None"
    by (simp add: config_headers_def default_headers_def)
  have "localStorage (initial_state [''nepali_user'' \<mapsto> ?json]) ''nepali_user'' = Some ?json
      \<and> ?json \<noteq> [] \<and> ?parse ?json = Some (JObj ?user)
      \<and> obj_get ?user ''token'' = JStr ''abc'' \<and> ''abc'' \<noteq> []
      \<and> obj_get ?user ''tokenType'' = JStr ''Bearer'' \<and> ''Bearer'' \<noteq> []"
    by (simp add: initial_state_def obj_get_def)
  then have a: "outgoing_headers ?parse ?p (initial_state [''nepali_user'' \<mapsto> ?json])
      ''Authorization'' = Some (''Bearer'' @ '' '' @ ''abc'')"
    using authorization_header_injected
      [of "initial_state [''nepali_user'' \<mapsto> ?json]" ?json ?parse ?user ?p "''abc''" "''Bearer''",
        THEN conjunct2, THEN conjunct1]
    by blast
  have "localStorage (initial_state Map.empty) ''nepali_user'' = None"
    by (simp add: initial_state_def)
  then have b: "outgoing_headers ?parse ?p (initial_state Map.empty) = config_headers (p_config ?p)"
    using authorization_header_injected
      [of "initial_state Map.empty" ?json ?parse ?user ?p "''abc''" "''Bearer''",
        THEN conjunct2, THEN conjunct2, THEN conjunct1]
    by blast
  have "localStorage (initial_state [''nepali_user'' \<mapsto> ?bad]) ''nepali_user'' = Some ?bad
      \<and> ?parse ?bad = None"
    by (simp add: initial_state_def)
  then have c: "outgoing_headers ?parse ?p (initial_state [''nepali_user'' \<mapsto> ?bad])
      = config_headers (p_config ?p)"
    using authorization_header_injected
      [of "initial_state [''nepali_user'' \<mapsto> ?bad]" ?bad ?parse ?user ?p "''abc''" "''Bearer''",
        THEN conjunct2, THEN conjunct2, THEN conjunct2, THEN conjunct1]
    by blast
  from a have a': "outgoing_headers ?parse ?p (initial_state [''nepali_user'' \<mapsto> ?json])
      ''Authorization'' = Some ''Bearer abc''"
    by simp
  show ?thesis
    using a' n unfolding b c by blast
qed

section \<open>How the operations change the state\<close>

lemma cancelRequest_fields [simp]:
  "isRedirecting (cancelRequest r st) = isRedirecting st"
  "trace (cancelRequest r st) = trace st"
  "cacheManager (cancelRequest r st) = cacheManager st"
  "localStorage (cancelRequest r st) = localStorage st"
  "nextSource (cancelRequest r st) = nextSource st"
  by (simp_all add: cancelRequest_def split: option.splits)

lemma cancelRequest_tokens:
  "cancelTokens (cancelRequest r st) = AList.delete r (cancelTokens st)"
  by (auto simp: cancelRequest_def map_of_eq_None_iff split: option.splits)

lemma cancelRequest_cancelled:
  "cancelledSources (cancelRequest r st) =
     (case map_of (cancelTokens st) r of
        None \<Rightarrow> cancelledSources st
      | Some src \<Rightarrow> cancel_source src (''Request '' @ r @ '' cancelled'') (cancelledSources st))"
  by (simp add: cancelRequest_def split: option.splits)

lemma register_source_fields [simp]:
  "isRedirecting (snd (register_source r st)) = isRedirecting st"
  "trace (snd (register_source r st)) = trace st"
  "cacheManager (snd (register_source r st)) = cacheManager st"
  "localStorage (snd (register_source r st)) = localStorage st"
  "cancelledSources (snd (register_source r st)) = cancelledSources st"
  "nextSource (snd (register_source r st)) = Suc (nextSource st)"
  "cancelTokens (snd (register_source r st)) = AList.update r (nextSource st) (cancelTokens st)"
  "fst (register_source r st) = nextSource st"
  by (simp_all add: register_source_def Let_def)

lemma clear_loop_fields [simp]:
  "isRedirecting (clear_loop es st) = isRedirecting st"
  "trace (clear_loop es st) = trace st"
  "cacheManager (clear_loop es st) = cacheManager st"
  "localStorage (clear_loop es st) = localStorage st"
  "nextSource (clear_loop es st) = nextSource st"
  by (induction es arbitrary: st) simp_all

lemma filter_delete_keys:
  "filter (\<lambda>x. fst x \<notin> K) (AList.delete k xs) = filter (\<lambda>x. fst x \<notin> insert k K) xs"
  by (induction xs) auto

lemma clear_loop_tokens:
  "cancelTokens (clear_loop es st) = filter (\<lambda>e. fst e \<notin> fst ` set es) (cancelTokens st)"
proof (induction es arbitrary: st)
  case Nil
  then show ?case by simp
next
  case (Cons e es)
  have "filter (\<lambda>x. fst x \<notin> fst ` set es) (AList.delete (fst e) (cancelTokens st))
      = filter (\<lambda>x. fst x \<notin> fst ` set (e # es)) (cancelTokens st)"
    by (simp add: filter_delete_keys)
  with Cons show ?case
    by simp
qed

lemma cancel_source_dom:
  "cancel_source src reason cs s = None \<longleftrightarrow> cs s = None \<and> s \<noteq> src"
  by (auto simp: cancel_source_def split: option.splits)

lemma cancel_source_kept:
  "cs s = Some r \<Longrightarrow> cancel_source src reason cs s = Some r"
  by (auto simp: cancel_source_def split: option.splits)

lemma clear_loop_cancelled:
  "cancelledSources (clear_loop es st) s = None
     \<longleftrightarrow> cancelledSources st s = None \<and> s \<notin> snd ` set es"
  by (induction es arbitrary: st) (auto simp: cancel_source_dom)

lemma clearActiveRequests_fields [simp]:
  "isRedirecting (clearActiveRequests st) = isRedirecting st"
  "trace (clearActiveRequests st) = trace st @ [CancelAll]"
  "cacheManager (clearActiveRequests st) = cacheManager st"
  "localStorage (clearActiveRequests st) = localStorage st"
  "nextSource (clearActiveRequests st) = nextSource st"
  "cancelTokens (clearActiveRequests st) = []"
  by (simp_all add: clearActiveRequests_def clear_loop_tokens filter_empty_conv)

lemma clearActiveRequests_cancelled:
  "cancelledSources (clearActiveRequests st) s = None
     \<longleftrightarrow> cancelledSources st s = None \<and> s \<notin> snd ` set (cancelTokens st)"
  by (simp add: clearActiveRequests_def clear_loop_cancelled)

lemma response_onRejected_teardown:
  assumes "response_status err = Some 401" "\<not> isRedirecting st"
  shows "isRedirecting (response_onRejected err st)"
    "trace (response_onRejected err st) = trace st @
       [RemoveItem ''nepali_user'', ToastDismiss, ToastError token_expired_message, CancelAll,
        SetTimeout (login_path (localStorage st ''nepali_app_client'')) 100]"
    "localStorage (response_onRejected err st) = (localStorage st)(''nepali_user'' := None)"
    "cancelTokens (response_onRejected err st) = []"
    "cacheManager (response_onRejected err st) = cacheManager st"
    "nextSource (response_onRejected err st) = nextSource st"
  using assms by (simp_all add: response_onRejected_def Let_def)

lemma response_onRejected_idle:
  "response_status err \<noteq> Some 401 \<or> isRedirecting st \<Longrightarrow> response_onRejected err st = st"
  by (auto simp: response_onRejected_def)

lemma response_onRejected_cache [simp]:
  "cacheManager (response_onRejected err st) = cacheManager st"
  by (simp add: response_onRejected_def Let_def)

lemma issue_fields [simp]:
  "fst (issue p body st) = Await p"
  "isRedirecting (snd (issue p body st)) = isRedirecting st"
  "trace (snd (issue p body st)) = trace st @ [Transport (p_verb p) (p_url p) body (p_source p)]"
  "cacheManager (snd (issue p body st)) = cacheManager st"
  "localStorage (snd (issue p body st)) = localStorage st"
  "nextSource (snd (issue p body st)) = nextSource st"
  "cancelTokens (snd (issue p body st)) = cancelTokens st"
  "cancelledSources (snd (issue p body st)) = cancelledSources st"
  by (simp_all add: issue_def)

lemma settle_rejected_state [simp]: "snd (settle_rejected p err st) = st"
  by (simp add: settle_rejected_def Let_def)

lemma write_settle_fields [simp]:
  "isRedirecting (snd (write_settle p resp st)) = isRedirecting st"
  "trace (snd (write_settle p resp st)) = trace st"
  "cacheManager (snd (write_settle p resp st)) = cacheManager st"
  "localStorage (snd (write_settle p resp st)) = localStorage st"
  "nextSource (snd (write_settle p resp st)) = nextSource st"
  "cancelledSources (snd (write_settle p resp st)) = cancelledSources st"
  by (simp_all add: write_settle_def split: response.splits)

lemma get_settle_fields [simp]:
  "isRedirecting (snd (get_settle p resp now st)) = isRedirecting st"
  "trace (snd (get_settle p resp now st)) = trace st"
  "localStorage (snd (get_settle p resp now st)) = localStorage st"
  "nextSource (snd (get_settle p resp now st)) = nextSource st"
  "cancelledSources (snd (get_settle p resp now st)) = cancelledSources st"
  by (simp_all add: get_settle_def Let_def split: response.splits option.splits)

lemma settle_call_fields [simp]:
  "isRedirecting (snd (settle_call p resp now st)) = isRedirecting st"
  "trace (snd (settle_call p resp now st)) = trace st"
  "localStorage (snd (settle_call p resp now st)) = localStorage st"
  "nextSource (snd (settle_call p resp now st)) = nextSource st"
  "cancelledSources (snd (settle_call p resp now st)) = cancelledSources st"
  by (simp_all add: settle_call_def split: verb.splits)

lemma settle_call_tokens:
  "cancelTokens (snd (settle_call p resp now st)) =
     (case resp of
        Fulfilled d \<Rightarrow> AList.delete (p_requestId p) (cancelTokens st)
      | Rejected err \<Rightarrow> cancelTokens st)"
  by (simp add: settle_call_def get_settle_def write_settle_def Let_def
      split: verb.splits response.splits option.splits)

lemma write_begin_unfold:
  "write_begin v url body config cbs now st =
     issue \<lparr>p_verb = v, p_url = url, p_config = config, p_callbacks = cbs,
            p_requestId = resolveRequestId v url config now, p_source = nextSource st\<rparr> body
       (snd (register_source (resolveRequestId v url config now)
              (cancelRequest (resolveRequestId v url config now) st)))"
  by (simp add: write_begin_def register_source_def Let_def)

lemma get_begin_unfold:
  "get_begin url config cbs now st =
     (let rid = resolveRequestId GET url config now;
          st2 = snd (register_source rid (cancelRequest rid st));
          p = \<lparr>p_verb = GET, p_url = url, p_config = config, p_callbacks = cbs,
               p_requestId = rid, p_source = nextSource st\<rparr>
      in case cacheRequested config of
           None \<Rightarrow> issue p None st2
         | Some co \<Rightarrow>
             (let r = CacheManager_get (resolveCacheKey url config co) now (cacheManager st)
              in if truthy (fst r)
                 then (Done (Resolved (fst r)) (call_onSuccess cbs (fst r) @ call_onFinally cbs),
                       st2\<lparr>cacheManager := snd r,
                           cancelTokens := AList.delete rid (cancelTokens st2)\<rparr>)
                 else issue p None (st2\<lparr>cacheManager := snd r\<rparr>)))"
  by (simp add: get_begin_def register_source_def Let_def split: prod.splits option.splits)

lemma write_begin_fields [simp]:
  "isRedirecting (snd (write_begin v url body config cbs now st)) = isRedirecting st"
  "trace (snd (write_begin v url body config cbs now st))
     = trace st @ [Transport v url body (nextSource st)]"
  "cacheManager (snd (write_begin v url body config cbs now st)) = cacheManager st"
  "localStorage (snd (write_begin v url body config cbs now st)) = localStorage st"
  "nextSource (snd (write_begin v url body config cbs now st)) = Suc (nextSource st)"
  "cancelledSources (snd (write_begin v url body config cbs now st))
     = cancelledSources (cancelRequest (resolveRequestId v url config now) st)"
  "cancelTokens (snd (write_begin v url body config cbs now st))
     = AList.update (resolveRequestId v url config now) (nextSource st)
         (AList.delete (resolveRequestId v url config now) (cancelTokens st))"
  by (simp_all add: write_begin_unfold cancelRequest_tokens)

lemma get_begin_fields [simp]:
  "isRedirecting (snd (get_begin url config cbs now st)) = isRedirecting st"
  "localStorage (snd (get_begin url config cbs now st)) = localStorage st"
  "nextSource (snd (get_begin url config cbs now st)) = Suc (nextSource st)"
  "cancelledSources (snd (get_begin url config cbs now st))
     = cancelledSources (cancelRequest (resolveRequestId GET url config now) st)"
  by (simp_all add: get_begin_unfold Let_def split: option.splits)

lemma begin_call_fields [simp]:
  "isRedirecting (snd (begin_call v url body config cbs now st)) = isRedirecting st"
  "localStorage (snd (begin_call v url body config cbs now st)) = localStorage st"
  "nextSource (snd (begin_call v url body config cbs now st)) = Suc (nextSource st)"
  "cancelledSources (snd (begin_call v url body config cbs now st))
     = cancelledSources (cancelRequest (resolveRequestId v url config now) st)"
  by (cases v; simp add: post_begin_def put_begin_def delete_begin_def)+

section \<open>Session expiry\<close>

lemma clearCache_fields [simp]:
  "isRedirecting (clearCache k st) = isRedirecting st"
  "trace (clearCache k st) = trace st"
  "localStorage (clearCache k st) = localStorage st"
  "nextSource (clearCache k st) = nextSource st"
  "cancelTokens (clearCache k st) = cancelTokens st"
  "cancelledSources (clearCache k st) = cancelledSources st"
  by (simp_all add: clearCache_def split: option.splits)

lemma get_begin_trace:
  "trace (snd (get_begin url config cbs now st)) = trace st
   \<or> trace (snd (get_begin url config cbs now st)) = trace st @ [Transport GET url None (nextSource st)]"
  by (simp add: get_begin_unfold Let_def split: option.splits)

lemma begin_call_trace:
  "trace (snd (begin_call v url body config cbs now st)) = trace st
   \<or> (\<exists>b. trace (snd (begin_call v url body config cbs now st))
            = trace st @ [Transport v url b (nextSource st)])"
proof (cases v)
  case GET
  then show ?thesis
    using get_begin_trace [of url config cbs now st] by auto
qed (simp_all add: post_begin_def put_begin_def delete_begin_def)

lemma begin_call_counts [simp]:
  "credential_removals (snd (begin_call v url body config cbs now st)) = credential_removals st"
  "cancel_alls (snd (begin_call v url body config cbs now st)) = cancel_alls st"
  "scheduled_redirects (snd (begin_call v url body config cbs now st)) = scheduled_redirects st"
  using begin_call_trace [of v url body config cbs now st]
  by (auto simp: credential_removals_def cancel_alls_def scheduled_redirects_def)

lemma respond_fields:
  "isRedirecting (snd (respond p resp now st))
     = isRedirecting (case resp of Fulfilled d \<Rightarrow> st | Rejected err \<Rightarrow> response_onRejected err st)"
  "trace (snd (respond p resp now st))
     = trace (case resp of Fulfilled d \<Rightarrow> st | Rejected err \<Rightarrow> response_onRejected err st)"
  "localStorage (snd (respond p resp now st))
     = localStorage (case resp of Fulfilled d \<Rightarrow> st | Rejected err \<Rightarrow> response_onRejected err st)"
  by (simp_all add: respond_def)

lemma step_flag:
  assumes "dispatcher_event e"
  shows "isRedirecting (step e st) = (isRedirecting st \<or> unauthorized e)"
proof (cases e)
  case (Respond p resp now)
  show ?thesis
  proof (cases resp)
    case (Fulfilled d)
    with Respond show ?thesis by (simp add: respond_fields)
  next
    case (Rejected err)
    show ?thesis
    proof (cases "response_status err = Some 401 \<and> \<not> isRedirecting st")
      case True
      with Respond Rejected show ?thesis
        by (simp add: respond_fields response_onRejected_teardown)
    next
      case False
      then have "response_onRejected err st = st"
        by (intro response_onRejected_idle) blast
      with Respond Rejected False show ?thesis
        by (auto simp: respond_fields)
    qed
  qed
qed (use assms in simp_all)

lemma step_counts_all:
  assumes "dispatcher_event e"
  shows "credential_removals (step e st)
      = credential_removals st + (if unauthorized e \<and> \<not> isRedirecting st then 1 else 0)
    \<and> cancel_alls (step e st)
      = cancel_alls st + (if unauthorized e \<and> \<not> isRedirecting st then 1 else 0)
    \<and> scheduled_redirects (step e st)
      = scheduled_redirects st + (if unauthorized e \<and> \<not> isRedirecting st then 1 else 0)
    \<and> localStorage (step e st)
      = (if unauthorized e \<and> \<not> isRedirecting st
         then (localStorage st)(''nepali_user'' := None) else localStorage st)"
proof (cases e)
  case (Issue v url body config cbs now)
  then show ?thesis
    by simp
next
  case (Respond p resp now)
  show ?thesis
  proof (cases resp)
    case (Fulfilled d)
    with Respond show ?thesis
      by (simp add: respond_fields credential_removals_def cancel_alls_def
          scheduled_redirects_def)
  next
    case (Rejected err)
    show ?thesis
    proof (cases "response_status err = Some 401 \<and> \<not> isRedirecting st")
      case True
      with Respond Rejected show ?thesis
        by (simp add: respond_fields response_onRejected_teardown credential_removals_def
            cancel_alls_def scheduled_redirects_def)
    next
      case False
      then have "response_onRejected err st = st"
        by (intro response_onRejected_idle) blast
      with Respond Rejected False show ?thesis
        by (auto simp: respond_fields credential_removals_def cancel_alls_def
            scheduled_redirects_def)
    qed
  qed
qed (use assms in \<open>simp_all add: credential_removals_def cancel_alls_def scheduled_redirects_def\<close>)

lemmas step_counts =
  step_counts_all [THEN conjunct1]
  step_counts_all [THEN conjunct2, THEN conjunct1]
  step_counts_all [THEN conjunct2, THEN conjunct2, THEN conjunct1]
  step_counts_all [THEN conjunct2, THEN conjunct2, THEN conjunct2]

lemma run_Cons: "run (e # evs) st = run evs (step e st)"
  by (simp add: run_def)

lemma run_Nil: "run [] st = st"
  by (simp add: run_def)

lemma run_flag:
  assumes "\<forall>e \<in> set evs. dispatcher_event e"
  shows "isRedirecting (run evs st) = (isRedirecting st \<or> (\<exists>e \<in> set evs. unauthorized e))"
  using assms
proof (induction evs arbitrary: st)
  case Nil
  then show ?case by (simp add: run_Nil)
next
  case (Cons e evs)
  then show ?case
    by (auto simp: run_Cons step_flag)
qed

lemma run_counts:
  assumes "\<forall>e \<in> set evs. dispatcher_event e"
  shows "credential_removals (run evs st) = credential_removals st
           + (if \<not> isRedirecting st \<and> (\<exists>e \<in> set evs. unauthorized e) then 1 else 0)
     \<and> cancel_alls (run evs st) = cancel_alls st
           + (if \<not> isRedirecting st \<and> (\<exists>e \<in> set evs. unauthorized e) then 1 else 0)
     \<and> scheduled_redirects (run evs st) = scheduled_redirects st
           + (if \<not> isRedirecting st \<and> (\<exists>e \<in> set evs. unauthorized e) then 1 else 0)
     \<and> localStorage (run evs st)
           = (if \<not> isRedirecting st \<and> (\<exists>e \<in> set evs. unauthorized e)
              then (localStorage st)(''nepali_user'' := None) else localStorage st)"
  using assms
proof (induction evs arbitrary: st)
  case Nil
  then show ?case by (simp add: run_Nil)
next
  case (Cons e evs)
  then have d: "dispatcher_event e" and ds: "\<forall>e \<in> set evs. dispatcher_event e"
    by simp_all
  note ih = Cons.IH [OF ds, of "step e st"]
  show ?case
  proof (cases "unauthorized e \<and> \<not> isRedirecting st")
    case True
    then have "isRedirecting (step e st)"
      by (simp add: step_flag [OF d])
    with ih True show ?thesis
      by (simp add: run_Cons step_counts [OF d])
  next
    case False
    then have "isRedirecting (step e st) = isRedirecting st"
      by (auto simp: step_flag [OF d])
    with ih False show ?thesis
      by (auto simp: run_Cons step_counts [OF d])
  qed
qed

text \<open>
  C1: take any sequence of dispatcher activity (calls being issued, responses arriving,
  \<open>cancelRequest\<close> and \<open>clearCache\<close> calls, in any interleaving) that starts with the
  session-expiry flag false and in which N \<open>\<ge>\<close> 1 responses are failures with status 401.
  Then exactly one teardown runs: the stored session record is removed once,
  \<open>clearActiveRequests\<close> is called once and one redirect is scheduled, whatever N is, and
  the flag is true afterwards. Starting with the flag true, no dispatcher activity performs
  any teardown step, and the flag stays true: the dispatcher never clears it. Only
  \<open>resetRedirectFlag\<close> sets it back to false.
\<close>

theorem session_teardown_exactly_once:
  assumes "\<forall>e \<in> set evs. dispatcher_event e"
  shows "(\<not> isRedirecting st \<and> 1 \<le> length (filter unauthorized evs) \<longrightarrow>
            isRedirecting (run evs st)
            \<and> credential_removals (run evs st) = credential_removals st + 1
            \<and> cancel_alls (run evs st) = cancel_alls st + 1
            \<and> scheduled_redirects (run evs st) = scheduled_redirects st + 1
            \<and> localStorage (run evs st) ''nepali_user'' = None)
     \<and> (isRedirecting st \<longrightarrow>
            isRedirecting (run evs st)
            \<and> credential_removals (run evs st) = credential_removals st
            \<and> cancel_alls (run evs st) = cancel_alls st
            \<and> scheduled_redirects (run evs st) = scheduled_redirects st)
     \<and> \<not> isRedirecting (step ResetRedirectFlag (run evs st))"
proof (intro conjI impI)
  assume h: "\<not> isRedirecting st \<and> 1 \<le> length (filter unauthorized evs)"
  then have "filter unauthorized evs \<noteq> []"
    by auto
  then have u: "\<exists>e \<in> set evs. unauthorized e"
    by (simp add: filter_empty_conv)
  with h show "isRedirecting (run evs st)"
    by (simp add: run_flag [OF assms])
  from h u run_counts [OF assms, of st]
  show "credential_removals (run evs st) = credential_removals st + 1"
    "cancel_alls (run evs st) = cancel_alls st + 1"
    "scheduled_redirects (run evs st) = scheduled_redirects st + 1"
    "localStorage (run evs st) ''nepali_user'' = None"
    by simp_all
next
  assume h: "isRedirecting st"
  then show "isRedirecting (run evs st)"
    by (simp add: run_flag [OF assms])
  from h run_counts [OF assms, of st]
  show "credential_removals (run evs st) = credential_removals st"
    "cancel_alls (run evs st) = cancel_alls st"
    "scheduled_redirects (run evs st) = scheduled_redirects st"
    by simp_all
next
  show "\<not> isRedirecting (step ResetRedirectFlag (run evs st))"
    by (simp add: resetRedirectFlag_def)
qed

theorem session_teardown_exactly_once_witness:
  "credential_removals
     (run [Respond \<lparr>p_verb = GET, p_url = ''/tasks'', p_config = None, p_callbacks = None,
                    p_requestId = ''a'', p_source = 0\<rparr>
             (Rejected (AxiosError ''Request failed with status code 401'' (Some (401, JNull)))) 5,
           Respond \<lparr>p_verb = POST, p_url = ''/files'', p_config = None, p_callbacks = None,
                    p_requestId = ''b'', p_source = 1\<rparr>
             (Rejected (AxiosError ''Request failed with status code 401'' (Some (401, JNull)))) 6,
           Respond \<lparr>p_verb = DELETE, p_url = ''/tasks/7'', p_config = None, p_callbacks = None,
                    p_requestId = ''c'', p_source = 2\<rparr>
             (Rejected (AxiosError ''Request failed with status code 401'' (Some (401, JNull)))) 7]
        (initial_state [''nepali_user'' \<mapsto> ''session'', ''nepali_app_client'' \<mapsto> ''acme''])) = 1
   \<and> cancel_alls
     (run [Respond \<lparr>p_verb = GET, p_url = ''/tasks'', p_config = None, p_callbacks = None,
                    p_requestId = ''a'', p_source = 0\<rparr>
             (Rejected (AxiosError ''Request failed with status code 401'' (Some (401, JNull)))) 5,
           Respond \<lparr>p_verb = POST, p_url = ''/files'', p_config = None, p_callbacks = None,
                    p_requestId = ''b'', p_source = 1\<rparr>
             (Rejected (AxiosError ''Request failed with status code 401'' (Some (401, JNull)))) 6,
           Respond \<lparr>p_verb = DELETE, p_url = ''/tasks/7'', p_config = None, p_callbacks = None,
                    p_requestId = ''c'', p_source = 2\<rparr>
             (Rejected (AxiosError ''Request failed with status code 401'' (Some (401, JNull)))) 7]
        (initial_state [''nepali_user'' \<mapsto> ''session'', ''nepali_app_client'' \<mapsto> ''acme''])) = 1
   \<and> scheduled_redirects
     (run [Respond \<lparr>p_verb = GET, p_url = ''/tasks'', p_config = None, p_callbacks = None,
                    p_requestId = ''a'', p_source = 0\<rparr>
             (Rejected (AxiosError ''Request failed with status code 401'' (Some (401, JNull)))) 5,
           Respond \<lparr>p_verb = POST, p_url = ''/files'', p_config = None, p_callbacks = None,
                    p_requestId = ''b'', p_source = 1\<rparr>
             (Rejected (AxiosError ''Request failed with status code 401'' (Some (401, JNull)))) 6,
           Respond \<lparr>p_verb = DELETE, p_url = ''/tasks/7'', p_config = None, p_callbacks = None,
                    p_requestId = ''c'', p_source = 2\<rparr>
             (Rejected (AxiosError ''Request failed with status code 401'' (Some (401, JNull)))) 7]
        (initial_state [''nepali_user'' \<mapsto> ''session'', ''nepali_app_client'' \<mapsto> ''acme''])) = 1
   \<and> isRedirecting
     (run [Respond \<lparr>p_verb = GET, p_url = ''/tasks'', p_config = None, p_callbacks = None,
                    p_requestId = ''a'', p_source = 0\<rparr>
             (Rejected (AxiosError ''Request failed with status code 401'' (Some (401, JNull)))) 5,
           Respond \<lparr>p_verb = POST, p_url = ''/files'', p_config = None, p_callbacks = None,
                    p_requestId = ''b'', p_source = 1\<rparr>
             (Rejected (AxiosError ''Request failed with status code 401'' (Some (401, JNull)))) 6,
           Respond \<lparr>p_verb = DELETE, p_url = ''/tasks/7'', p_config = None, p_callbacks = None,
                    p_requestId = ''c'', p_source = 2\<rparr>
             (Rejected (AxiosError ''Request failed with status code 401'' (Some (401, JNull)))) 7]
        (initial_state [''nepali_user'' \<mapsto> ''session'', ''nepali_app_client'' \<mapsto> ''acme'']))"
proof -
  let ?e = "Rejected (AxiosError ''Request failed with status code 401'' (Some (401, JNull)))"
  let ?evs = "[Respond \<lparr>p_verb = GET, p_url = ''/tasks'', p_config = None, p_callbacks = None,
                    p_requestId = ''a'', p_source = 0\<rparr> ?e 5,
           Respond \<lparr>p_verb = POST, p_url = ''/files'', p_config = None, p_callbacks = None,
                    p_requestId = ''b'', p_source = 1\<rparr> ?e 6,
           Respond \<lparr>p_verb = DELETE, p_url = ''/tasks/7'', p_config = None, p_callbacks = None,
                    p_requestId = ''c'', p_source = 2\<rparr> ?e 7]"
  let ?st = "initial_state [''nepali_user'' \<mapsto> ''session'', ''nepali_app_client'' \<mapsto> ''acme'']"
  have d: "\<forall>e \<in> set ?evs. dispatcher_event e"
    by simp
  have h: "\<not> isRedirecting ?st \<and> 1 \<le> length (filter unauthorized ?evs)"
    by (simp add: initial_state_def response_status_def)
  have z: "credential_removals ?st = 0" "cancel_alls ?st = 0" "scheduled_redirects ?st = 0"
    by (simp_all add: initial_state_def credential_removals_def cancel_alls_def
        scheduled_redirects_def)
  from session_teardown_exactly_once [OF d, of ?st, THEN conjunct1] h
  have "isRedirecting (run ?evs ?st)
            \<and> credential_removals (run ?evs ?st) = credential_removals ?st + 1
            \<and> cancel_alls (run ?evs ?st) = cancel_alls ?st + 1
            \<and> scheduled_redirects (run ?evs ?st) = scheduled_redirects ?st + 1
            \<and> localStorage (run ?evs ?st) ''nepali_user'' = None"
    by blast
  then show ?thesis
    unfolding z by simp
qed

section \<open>Cache reads and writes of the dispatcher\<close>

lemma CacheManager_get_shrinks:
  "snd (CacheManager_get k now c) k' = Some e \<Longrightarrow> c k' = Some e"
  by (auto simp: CacheManager_get_def split: option.splits if_splits)

lemma get_begin_cache:
  "cacheManager (snd (get_begin url config cbs now st)) k = Some e \<Longrightarrow> cacheManager st k = Some e"
  by (auto simp: get_begin_unfold Let_def dest: CacheManager_get_shrinks
      split: option.splits if_splits)

lemma begin_call_cache:
  "cacheManager (snd (begin_call v url body config cbs now st)) k = Some e
     \<Longrightarrow> cacheManager st k = Some e"
  by (cases v) (auto simp: post_begin_def put_begin_def delete_begin_def dest: get_begin_cache)

lemma clearCache_cache:
  "cacheManager (clearCache key' st) k = Some e \<Longrightarrow> cacheManager st k = Some e"
  by (auto simp: clearCache_def CacheManager_clear_def CacheManager_delete_def
      split: option.splits if_splits)

lemma settle_call_cache:
  "cacheManager (snd (settle_call p resp now st)) =
     (case resp of
        Rejected err \<Rightarrow> cacheManager st
      | Fulfilled d \<Rightarrow>
          (case p_verb p of
             GET \<Rightarrow>
               (case cacheRequested (p_config p) of
                  None \<Rightarrow> cacheManager st
                | Some co \<Rightarrow>
                    CacheManager_set (resolveCacheKey (p_url p) (p_config p) co) d (ttl co) now
                      (cacheManager st))
           | _ \<Rightarrow> cacheManager st))"
  by (simp add: settle_call_def get_settle_def write_settle_def Let_def
      split: verb.splits response.splits option.splits)

lemma cacheRequested_Some:
  "cacheRequested config = Some co \<Longrightarrow>
     \<exists>cfg. config = Some cfg \<and> cache cfg = Some co \<and> \<not> bypass co"
  by (auto simp: cacheRequested_def split: option.splits if_splits)

lemma respond_cache_written:
  assumes "cacheManager (snd (respond p resp now st)) k = Some entry"
    and "cacheManager st k \<noteq> Some entry"
  shows "\<exists>d cfg co. resp = Fulfilled d \<and> p_verb p = GET \<and> p_config p = Some cfg
           \<and> cache cfg = Some co \<and> \<not> bypass co
           \<and> k = resolveCacheKey (p_url p) (p_config p) co \<and> entry_data entry = d"
proof (cases resp)
  case (Rejected err)
  with assms show ?thesis
    by (simp add: respond_def settle_call_cache)
next
  case (Fulfilled d)
  show ?thesis
  proof (cases "p_verb p = GET")
    case False
    with assms Fulfilled show ?thesis
      by (simp add: respond_def settle_call_cache split: verb.splits)
  next
    case True
    show ?thesis
    proof (cases "cacheRequested (p_config p)")
      case None
      with assms Fulfilled True show ?thesis
        by (simp add: respond_def settle_call_cache)
    next
      case (Some co)
      then obtain cfg where c: "p_config p = Some cfg" "cache cfg = Some co" "\<not> bypass co"
        using cacheRequested_Some by blast
      from assms Fulfilled True Some
      have "k = resolveCacheKey (p_url p) (p_config p) co \<and> entry_data entry = d"
        by (auto simp: respond_def settle_call_cache CacheManager_set_def split: if_splits)
      with Fulfilled True c show ?thesis
        by blast
    qed
  qed
qed

text \<open>
  C8: whatever the dispatcher does in one atomic step (the start of a call of any verb,
  the arrival of a response for a pending call, \<open>cancelRequest\<close>, \<open>clearCache\<close>,
  \<open>clearActiveRequests\<close>, \<open>resetRedirectFlag\<close>), if the cache holds an entry under a
  key afterwards that it did not hold before, then the step was the successful
  response of a \<open>get\<close> call whose options requested caching and did not set bypass, the
  key is that call's cache key and the entry's value is the response data. The write
  verbs, every error outcome and every cancelled outcome never insert an entry.
\<close>

theorem cache_entries_only_from_successful_cacheable_get:
  "cacheManager (step e st) k = Some entry \<and> cacheManager st k \<noteq> Some entry \<longrightarrow>
     (\<exists>p d now cfg co. e = Respond p (Fulfilled d) now \<and> p_verb p = GET
        \<and> p_config p = Some cfg \<and> cache cfg = Some co \<and> \<not> bypass co
        \<and> k = resolveCacheKey (p_url p) (p_config p) co \<and> entry_data entry = d)"
proof (intro impI, elim conjE)
  assume a: "cacheManager (step e st) k = Some entry" and b: "cacheManager st k \<noteq> Some entry"
  show "\<exists>p d now cfg co. e = Respond p (Fulfilled d) now \<and> p_verb p = GET
        \<and> p_config p = Some cfg \<and> cache cfg = Some co \<and> \<not> bypass co
        \<and> k = resolveCacheKey (p_url p) (p_config p) co \<and> entry_data entry = d"
  proof (cases e)
    case (Issue v url body config cbs now)
    with a have "cacheManager st k = Some entry"
      using begin_call_cache [of v url body config cbs now st k entry] by simp
    with b show ?thesis
      by simp
  next
    case (Respond p resp now)
    with a have "cacheManager (snd (respond p resp now st)) k = Some entry"
      by simp
    from respond_cache_written [OF this b] obtain d cfg co where
      "resp = Fulfilled d" "p_verb p = GET" "p_config p = Some cfg" "cache cfg = Some co"
      "\<not> bypass co" "k = resolveCacheKey (p_url p) (p_config p) co" "entry_data entry = d"
      by blast
    with Respond show ?thesis
      by blast
  next
    case (CancelRequest rid)
    with a b show ?thesis by simp
  next
    case (ClearCache key')
    with a have "cacheManager st k = Some entry"
      using clearCache_cache [of key' st k entry] by simp
    with b show ?thesis
      by simp
  next
    case ClearActiveRequests
    with a b show ?thesis by simp
  next
    case ResetRedirectFlag
    with a b show ?thesis by (simp add: resetRedirectFlag_def)
  qed
qed

theorem cache_entries_only_from_successful_cacheable_get_witness:
  "cacheManager
     (step (Respond
              \<lparr>p_verb = GET, p_url = ''/tasks/7'',
               p_config = Some \<lparr>cache = Some \<lparr>key = ''/tasks/7'', ttl = Some 1000, bypass = False\<rparr>,
                                requestId = None, params = None, headers = Map.empty\<rparr>,
               p_callbacks = None, p_requestId = ''get:/tasks/7:0'', p_source = 0\<rparr>
              (Fulfilled (JObj [(''id'', JNum 7)])) 0)
           (initial_state Map.empty))
     ''/tasks/7''
     = Some \<lparr>entry_data = JObj [(''id'', JNum 7)], timestamp = 0, expiresAt = 1000\<rparr>
   \<and> cacheManager (initial_state Map.empty) ''/tasks/7''
       \<noteq> Some \<lparr>entry_data = JObj [(''id'', JNum 7)], timestamp = 0, expiresAt = 1000\<rparr>
   \<and> (\<exists>p d now cfg co.
         Respond
           \<lparr>p_verb = GET, p_url = ''/tasks/7'',
            p_config = Some \<lparr>cache = Some \<lparr>key = ''/tasks/7'', ttl = Some 1000, bypass = False\<rparr>,
                             requestId = None, params = None, headers = Map.empty\<rparr>,
            p_callbacks = None, p_requestId = ''get:/tasks/7:0'', p_source = 0\<rparr>
           (Fulfilled (JObj [(''id'', JNum 7)])) 0
         = Respond p (Fulfilled d) now \<and> p_verb p = GET
         \<and> p_config p = Some cfg \<and> cache cfg = Some co \<and> \<not> bypass co
         \<and> ''/tasks/7'' = resolveCacheKey (p_url p) (p_config p) co
         \<and> entry_data \<lparr>entry_data = JObj [(''id'', JNum 7)], timestamp = 0, expiresAt = 1000\<rparr> = d)"
proof -
  let ?p = "\<lparr>p_verb = GET, p_url = ''/tasks/7'',
               p_config = Some \<lparr>cache = Some \<lparr>key = ''/tasks/7'', ttl = Some 1000, bypass = False\<rparr>,
                                requestId = None, params = None, headers = Map.empty\<rparr>,
               p_callbacks = None, p_requestId = ''get:/tasks/7:0'', p_source = 0\<rparr>"
  let ?e = "Respond ?p (Fulfilled (JObj [(''id'', JNum 7)])) 0"
  let ?entry = "\<lparr>entry_data = JObj [(''id'', JNum 7)], timestamp = 0, expiresAt = 1000\<rparr>"
  have a: "cacheManager (step ?e (initial_state Map.empty)) ''/tasks/7'' = Some ?entry"
    by (simp add: respond_def settle_call_cache cacheRequested_def resolveCacheKey_def
        CacheManager_set_def initial_state_def)
  have b: "cacheManager (initial_state Map.empty) ''/tasks/7'' \<noteq> Some ?entry"
    by (simp add: initial_state_def)
  from a b cache_entries_only_from_successful_cacheable_get
    [of ?e "initial_state Map.empty" "''/tasks/7''" ?entry]
  show ?thesis
    by blast
qed

section \<open>Cache hits\<close>

lemma get_begin_cache_hit:
  assumes "cacheRequested config = Some co"
    and "cacheManager st (resolveCacheKey url config co) = Some e"
    and "\<not> expiresAt e < now" and "truthy (entry_data e)"
  shows "fst (get_begin url config cbs now st)
      = Done (Resolved (entry_data e))
          (call_onSuccess cbs (entry_data e) @ call_onFinally cbs)"
    and "trace (snd (get_begin url config cbs now st)) = trace st"
    and "map_of (cancelTokens (snd (get_begin url config cbs now st)))
           (resolveRequestId GET url config now) = None"
    and "cacheManager (snd (get_begin url config cbs now st)) = cacheManager st"
  using assms
  by (simp_all add: get_begin_unfold Let_def CacheManager_get_fresh AList.delete_conv')

text \<open>
  C5 fails when the cached value is falsy. The cache holds, under the key \<open>/count\<close>, the
  value 0 stored at time 0 with a TTL of 1000 ms; a cacheable, non-bypassed read of
  \<open>/count\<close> at time 500 finds the entry unexpired (\<open>CacheManager.get\<close> returns 0), but the
  test \<open>if (cachedData)\<close> rejects it: the call is not short-circuited, no callback is
  invoked, the handle stays registered and a transport call is issued.
\<close>

theorem get_falsy_cached_value_goes_to_transport:
  "fst (CacheManager_get ''/count'' 500
          (CacheManager_set ''/count'' (JNum 0) (Some 1000) 0 Map.empty)) = JNum 0
   \<and> fst (get_begin ''/count''
            (Some \<lparr>cache = Some \<lparr>key = ''/count'', ttl = Some 1000, bypass = False\<rparr>,
                   requestId = Some ''count'', params = None, headers = Map.empty\<rparr>)
            (Some all_callbacks) 500
            ((initial_state Map.empty)\<lparr>cacheManager :=
                CacheManager_set ''/count'' (JNum 0) (Some 1000) 0 Map.empty\<rparr>))
       = Await \<lparr>p_verb = GET, p_url = ''/count'',
                p_config = Some \<lparr>cache = Some \<lparr>key = ''/count'', ttl = Some 1000, bypass = False\<rparr>,
                                 requestId = Some ''count'', params = None, headers = Map.empty\<rparr>,
                p_callbacks = Some all_callbacks, p_requestId = ''count'', p_source = 0\<rparr>
   \<and> trace (snd (get_begin ''/count''
            (Some \<lparr>cache = Some \<lparr>key = ''/count'', ttl = Some 1000, bypass = False\<rparr>,
                   requestId = Some ''count'', params = None, headers = Map.empty\<rparr>)
            (Some all_callbacks) 500
            ((initial_state Map.empty)\<lparr>cacheManager :=
                CacheManager_set ''/count'' (JNum 0) (Some 1000) 0 Map.empty\<rparr>)))
       = [Transport GET ''/count'' None 0]
   \<and> cancelTokens (snd (get_begin ''/count''
            (Some \<lparr>cache = Some \<lparr>key = ''/count'', ttl = Some 1000, bypass = False\<rparr>,
                   requestId = Some ''count'', params = None, headers = Map.empty\<rparr>)
            (Some all_callbacks) 500
            ((initial_state Map.empty)\<lparr>cacheManager :=
                CacheManager_set ''/count'' (JNum 0) (Some 1000) 0 Map.empty\<rparr>)))
       = [(''count'', 0)]"
  by (simp add: get_begin_unfold Let_def resolveRequestId_def cancelRequest_def
      cacheRequested_def resolveCacheKey_def CacheManager_get_def CacheManager_set_def
      initial_state_def)

section \<open>Cancellation registry\<close>

lemma registry_ok_other_fields [simp]:
  "registry_ok (st\<lparr>cacheManager := c\<rparr>) = registry_ok st"
  "registry_ok (st\<lparr>trace := t\<rparr>) = registry_ok st"
  "registry_ok (st\<lparr>isRedirecting := b\<rparr>) = registry_ok st"
  "registry_ok (st\<lparr>localStorage := l\<rparr>) = registry_ok st"
  by (simp_all add: registry_ok_def)

lemma registry_ok_fields:
  assumes "cancelTokens st' = cancelTokens st" "cancelledSources st' = cancelledSources st"
    and "nextSource st' = nextSource st"
  shows "registry_ok st' = registry_ok st"
  using assms by (simp add: registry_ok_def)

lemma registry_ok_initial: "registry_ok (initial_state storage)"
  by (simp add: registry_ok_def initial_state_def)

lemma update_fresh_key:
  "k \<notin> fst ` set al \<Longrightarrow> AList.update k v al = al @ [(k, v)]"
  by (induction al) auto

lemma registry_ok_delete:
  assumes "registry_ok st"
  shows "registry_ok (st\<lparr>cancelTokens := AList.delete r (cancelTokens st)\<rparr>)"
proof -
  have "distinct (map snd (AList.delete r (cancelTokens st)))"
    using assms by (simp add: registry_ok_def AList.delete_eq distinct_map_filter)
  moreover have "set (AList.delete r (cancelTokens st)) \<subseteq> set (cancelTokens st)"
    by (auto simp: AList.delete_eq)
  ultimately show ?thesis
    using assms by (auto simp: registry_ok_def AList.distinct_delete)
qed

lemma registered_source_unique:
  assumes "distinct (map snd al)" "(r, src) \<in> set al" "e \<in> set al" "snd e = src"
  shows "fst e = r"
proof -
  have "inj_on snd (set al)"
    using assms(1) by (simp add: distinct_map)
  moreover have "snd e = snd (r, src)"
    using assms(4) by simp
  ultimately have "e = (r, src)"
    using assms(2,3) by (meson inj_onD)
  then show ?thesis by simp
qed

lemma registry_ok_cancelRequest:
  assumes "registry_ok st"
  shows "registry_ok (cancelRequest r st)"
proof (cases "map_of (cancelTokens st) r")
  case None
  then show ?thesis
    using assms by (simp add: cancelRequest_def)
next
  case (Some src)
  then have m: "(r, src) \<in> set (cancelTokens st)"
    by (rule map_of_SomeD)
  have lt: "src < nextSource st"
    using assms m by (auto simp: registry_ok_def)
  have d: "distinct (map snd (cancelTokens st))"
    using assms by (simp add: registry_ok_def)
  have other: "snd e \<noteq> src" if "e \<in> set (AList.delete r (cancelTokens st))" for e
  proof
    assume s: "snd e = src"
    from that have "e \<in> set (cancelTokens st)" "fst e \<noteq> r"
      by (auto simp: AList.delete_eq)
    with registered_source_unique [OF d m _ s] show False
      by blast
  qed
  have ok: "registry_ok (st\<lparr>cancelTokens := AList.delete r (cancelTokens st)\<rparr>)"
    using assms by (rule registry_ok_delete)
  have "registry_ok
          (st\<lparr>cancelledSources :=
                cancel_source src (''Request '' @ r @ '' cancelled'') (cancelledSources st),
              cancelTokens := AList.delete r (cancelTokens st)\<rparr>)"
    using ok other lt
    by (auto simp: registry_ok_def cancel_source_dom)
  with Some show ?thesis
    by (simp add: cancelRequest_def)
qed

lemma registry_ok_register:
  assumes "registry_ok st" "r \<notin> fst ` set (cancelTokens st)"
  shows "registry_ok (snd (register_source r st))"
proof -
  have fresh: "nextSource st \<notin> snd ` set (cancelTokens st)"
    using assms(1) by (auto simp: registry_ok_def)
  have nc: "cancelledSources st (nextSource st) = None"
    using assms(1) by (auto simp: registry_ok_def)
  have lt: "s < Suc (nextSource st)" if "cancelledSources st s \<noteq> None" for s
    using assms(1) that by (auto simp: registry_ok_def less_Suc_eq)
  show ?thesis
    using assms fresh nc lt
    by (auto simp: registry_ok_def update_fresh_key less_Suc_eq)
qed

lemma cancelRequest_removes_key:
  "r \<notin> fst ` set (cancelTokens (cancelRequest r st))"
  by (auto simp: cancelRequest_tokens AList.delete_eq)

lemma registry_ok_registered:
  assumes "registry_ok st"
  shows "registry_ok (snd (register_source r (cancelRequest r st)))"
  using assms registry_ok_cancelRequest registry_ok_register cancelRequest_removes_key
  by blast

lemma registry_ok_issue [simp]: "registry_ok (snd (issue p body st)) = registry_ok st"
  by (simp add: issue_def)

lemma registry_ok_get_begin:
  assumes "registry_ok st"
  shows "registry_ok (snd (get_begin url config cbs now st))"
proof -
  let ?rid = "resolveRequestId GET url config now"
  let ?st2 = "snd (register_source ?rid (cancelRequest ?rid st))"
  let ?st' = "snd (get_begin url config cbs now st)"
  have ok: "registry_ok ?st2"
    using assms by (rule registry_ok_registered)
  have del: "registry_ok (?st2\<lparr>cancelTokens := AList.delete ?rid (cancelTokens ?st2)\<rparr>)"
    using ok by (rule registry_ok_delete)
  have "cancelTokens ?st' = cancelTokens ?st2
      \<or> cancelTokens ?st' = AList.delete ?rid (cancelTokens ?st2)"
    by (simp add: get_begin_unfold Let_def split: option.splits)
  moreover have "cancelledSources ?st' = cancelledSources ?st2" "nextSource ?st' = nextSource ?st2"
    by simp_all
  ultimately have "registry_ok ?st' = registry_ok ?st2
      \<or> registry_ok ?st'
          = registry_ok (?st2\<lparr>cancelTokens := AList.delete ?rid (cancelTokens ?st2)\<rparr>)"
    using registry_ok_fields [of ?st' ?st2]
      registry_ok_fields
        [of ?st' "?st2\<lparr>cancelTokens := AList.delete ?rid (cancelTokens ?st2)\<rparr>"]
    by fastforce
  with ok del show ?thesis
    by blast
qed

lemma registry_ok_begin_call:
  assumes "registry_ok st"
  shows "registry_ok (snd (begin_call v url body config cbs now st))"
proof (cases v)
  case GET
  then show ?thesis
    using assms by (simp add: registry_ok_get_begin)
qed (use assms in \<open>simp_all add: post_begin_def put_begin_def delete_begin_def
      write_begin_unfold registry_ok_registered\<close>)

lemma registry_ok_clearActiveRequests:
  assumes "registry_ok st"
  shows "registry_ok (clearActiveRequests st)"
proof -
  have "s < nextSource st" if "cancelledSources (clearActiveRequests st) s \<noteq> None" for s
    using that assms clearActiveRequests_cancelled [of st s]
    by (auto simp: registry_ok_def)
  then show ?thesis
    by (simp add: registry_ok_def)
qed

lemma registry_ok_response_onRejected:
  assumes "registry_ok st"
  shows "registry_ok (response_onRejected err st)"
proof (cases "response_status err = Some 401 \<and> \<not> isRedirecting st")
  case True
  have "registry_ok (clearActiveRequests
          (st\<lparr>isRedirecting := True, localStorage := (localStorage st)(''nepali_user'' := None),
              trace := trace st @
                [RemoveItem ''nepali_user'', ToastDismiss, ToastError token_expired_message]\<rparr>))"
    using assms by (intro registry_ok_clearActiveRequests) simp
  with True show ?thesis
    by (simp add: response_onRejected_def Let_def)
next
  case False
  then have "response_onRejected err st = st"
    by (intro response_onRejected_idle) blast
  with assms show ?thesis by simp
qed

lemma registry_ok_settle_call:
  assumes "registry_ok st"
  shows "registry_ok (snd (settle_call p resp now st))"
proof (cases resp)
  case (Fulfilled d)
  have "registry_ok (st\<lparr>cancelTokens := AList.delete (p_requestId p) (cancelTokens st)\<rparr>)"
    using assms by (rule registry_ok_delete)
  moreover have "registry_ok (snd (settle_call p resp now st))
      = registry_ok (st\<lparr>cancelTokens := AList.delete (p_requestId p) (cancelTokens st)\<rparr>)"
    using Fulfilled by (intro registry_ok_fields) (simp_all add: settle_call_tokens)
  ultimately show ?thesis
    by simp
next
  case (Rejected err)
  then show ?thesis
    using assms by (simp add: settle_call_rejected)
qed

lemma registry_ok_step:
  assumes "registry_ok st"
  shows "registry_ok (step e st)"
proof (cases e)
  case (Issue v url body config cbs now)
  then show ?thesis
    using assms by (simp add: registry_ok_begin_call)
next
  case (Respond p resp now)
  have "registry_ok (case resp of Fulfilled d \<Rightarrow> st | Rejected err \<Rightarrow> response_onRejected err st)"
    using assms by (simp add: registry_ok_response_onRejected split: response.splits)
  with Respond show ?thesis
    by (simp add: respond_def registry_ok_settle_call)
next
  case (CancelRequest rid)
  then show ?thesis
    using assms by (simp add: registry_ok_cancelRequest)
next
  case (ClearCache k)
  then show ?thesis
    using assms by (simp add: clearCache_def split: option.splits)
next
  case ClearActiveRequests
  then show ?thesis
    using assms by (simp add: registry_ok_clearActiveRequests)
next
  case ResetRedirectFlag
  then show ?thesis
    using assms by (simp add: resetRedirectFlag_def)
qed

lemma registry_ok_run:
  "registry_ok st \<Longrightarrow> registry_ok (run evs st)"
  by (induction evs arbitrary: st) (simp_all add: run_Nil run_Cons registry_ok_step)

lemma registry_ok_reachable: "registry_ok (run evs (initial_state storage))"
  by (simp add: registry_ok_run registry_ok_initial)

lemma cancelRequest_keeps_cancelled:
  "cancelledSources st s = Some r \<Longrightarrow> cancelledSources (cancelRequest rid st) s = Some r"
  by (simp add: cancelRequest_cancelled cancel_source_kept split: option.splits)

lemma clear_loop_keeps_cancelled:
  "cancelledSources st s = Some r \<Longrightarrow> cancelledSources (clear_loop es st) s = Some r"
  by (induction es arbitrary: st) (simp_all add: cancel_source_kept)

lemma response_onRejected_keeps_cancelled:
  "cancelledSources st s = Some r \<Longrightarrow> cancelledSources (response_onRejected err st) s = Some r"
  by (simp add: response_onRejected_def Let_def clearActiveRequests_def clear_loop_keeps_cancelled)

lemma step_keeps_cancelled:
  assumes "cancelledSources st s = Some r"
  shows "cancelledSources (step e st) s = Some r"
proof (cases e)
  case (Issue v url body config cbs now)
  then show ?thesis
    using assms by (simp add: cancelRequest_keeps_cancelled)
next
  case (Respond p resp now)
  then show ?thesis
    using assms
    by (simp add: respond_def response_onRejected_keeps_cancelled split: response.splits)
next
  case (CancelRequest rid)
  then show ?thesis
    using assms by (simp add: cancelRequest_keeps_cancelled)
next
  case (ClearCache k)
  then show ?thesis
    using assms by simp
next
  case ClearActiveRequests
  then show ?thesis
    using assms by (simp add: clearActiveRequests_def clear_loop_keeps_cancelled)
next
  case ResetRedirectFlag
  then show ?thesis
    using assms by (simp add: resetRedirectFlag_def)
qed

lemma run_keeps_cancelled:
  "cancelledSources st s = Some r \<Longrightarrow> cancelledSources (run evs st) s = Some r"
  by (induction evs arbitrary: st) (simp_all add: run_Nil run_Cons step_keeps_cancelled)

lemma begin_call_tokens:
  "cancelTokens (snd (begin_call v url body config cbs now st))
     = (case fst (begin_call v url body config cbs now st) of
          Await p \<Rightarrow>
            AList.update (resolveRequestId v url config now) (nextSource st)
              (AList.delete (resolveRequestId v url config now) (cancelTokens st))
        | Done out evs \<Rightarrow>
            AList.delete (resolveRequestId v url config now)
              (AList.update (resolveRequestId v url config now) (nextSource st)
                (AList.delete (resolveRequestId v url config now) (cancelTokens st))))"
  by (cases v)
    (simp_all add: post_begin_def put_begin_def delete_begin_def write_begin_unfold
      get_begin_unfold Let_def cancelRequest_tokens split: option.splits)

lemma begin_call_pending:
  "fst (begin_call v url body config cbs now st) = Await p \<Longrightarrow>
     p = \<lparr>p_verb = v, p_url = url, p_config = config, p_callbacks = cbs,
          p_requestId = resolveRequestId v url config now, p_source = nextSource st\<rparr>"
  by (cases v)
    (auto simp: post_begin_def put_begin_def delete_begin_def write_begin_unfold
      get_begin_unfold Let_def split: option.splits if_splits)

lemma superseded_source_cancelled:
  assumes "registry_ok st" "map_of (cancelTokens st) rid = Some old"
  shows "cancelledSources (cancelRequest rid st) old = Some (''Request '' @ rid @ '' cancelled'')"
proof -
  have "(rid, old) \<in> set (cancelTokens st)"
    using assms(2) by (rule map_of_SomeD)
  then have "cancelledSources st old = None"
    using assms(1) by (auto simp: registry_ok_def)
  with assms(2) show ?thesis
    by (simp add: cancelRequest_cancelled cancel_source_def)
qed

lemma cancelled_call_settles_cancelled:
  assumes "cancelledSources st (p_source q) = Some reason"
  shows "transport_settles q server st = Rejected (Cancel reason)"
    and "settle_call q (transport_settles q server st) now st
           = ((Thrown (Raw (Cancel reason)), call_onFinally (p_callbacks q)), st)"
  using assms
  by (simp_all add: transport_settles_def settle_call_rejected settle_rejected_cancel)

text \<open>
  C4: in every state the dispatcher can reach, the registry holds at most one handle per
  request identifier and every registered handle is live (not cancelled). Every call,
  of any verb, first cancels and removes the handle registered under its resolved
  \<open>requestId\<close> and only then stores a fresh handle: the previous handle \<open>old\<close> is
  cancelled with the reason \<open>Request <id> cancelled\<close> and no longer registered; the call
  that goes to the transport is registered under the identifier with a new, live handle.
  From then on, whatever the dispatcher does in between, the transport settles the
  superseded call (which still holds \<open>old\<close>) by the contract of its cancel tokens: it
  rejects with that cancellation, and the call settles as Cancelled, the cancellation
  being rethrown with no \<open>onSuccess\<close> or \<open>onError\<close> invoked.
\<close>

theorem registry_one_live_handle_per_id:
  assumes "st = run evs (initial_state storage)"
    and "rid = resolveRequestId v url config now"
    and "st' = snd (begin_call v url body config cbs now st)"
  shows "distinct (map fst (cancelTokens st))
     \<and> (\<forall>e \<in> set (cancelTokens st). cancelledSources st (snd e) = None)
     \<and> distinct (map fst (cancelTokens st'))
     \<and> (\<forall>e \<in> set (cancelTokens st'). cancelledSources st' (snd e) = None)
     \<and> (map_of (cancelTokens st) rid = Some old \<longrightarrow>
          cancelledSources st' old = Some (''Request '' @ rid @ '' cancelled'')
          \<and> old \<notin> snd ` set (cancelTokens st')
          \<and> (p_source q = old \<longrightarrow>
               transport_settles q server (run later st')
                 = Rejected (Cancel (''Request '' @ rid @ '' cancelled''))
               \<and> fst (settle_call q (transport_settles q server (run later st')) t (run later st'))
                 = (Thrown (Raw (Cancel (''Request '' @ rid @ '' cancelled''))),
                    call_onFinally (p_callbacks q))))
     \<and> (fst (begin_call v url body config cbs now st) = Await p \<longrightarrow>
          p_requestId p = rid \<and> p_source p = nextSource st
          \<and> map_of (cancelTokens st') rid = Some (p_source p)
          \<and> cancelledSources st' (p_source p) = None
          \<and> map_of (cancelTokens st) rid \<noteq> Some (p_source p))
     \<and> (fst (begin_call v url body config cbs now st) = Done out cbevs \<longrightarrow>
          map_of (cancelTokens st') rid = None)"
proof -
  have ok: "registry_ok st"
    unfolding assms(1) by (rule registry_ok_reachable)
  then have ok': "registry_ok st'"
    unfolding assms(3) by (rule registry_ok_begin_call)
  have c': "cancelledSources st' = cancelledSources (cancelRequest rid st)"
    unfolding assms(2,3) by simp
  have 1: "distinct (map fst (cancelTokens st))"
    "\<forall>e \<in> set (cancelTokens st). cancelledSources st (snd e) = None"
    using ok by (simp_all add: registry_ok_def)
  have 2: "distinct (map fst (cancelTokens st'))"
    "\<forall>e \<in> set (cancelTokens st'). cancelledSources st' (snd e) = None"
    using ok' by (simp_all add: registry_ok_def)
  have 3: "cancelledSources st' old = Some (''Request '' @ rid @ '' cancelled'')
          \<and> old \<notin> snd ` set (cancelTokens st')
          \<and> (p_source q = old \<longrightarrow>
               transport_settles q server (run later st')
                 = Rejected (Cancel (''Request '' @ rid @ '' cancelled''))
               \<and> fst (settle_call q (transport_settles q server (run later st')) t (run later st'))
                 = (Thrown (Raw (Cancel (''Request '' @ rid @ '' cancelled''))),
                    call_onFinally (p_callbacks q)))"
    if m: "map_of (cancelTokens st) rid = Some old"
  proof (intro conjI impI)
    show c: "cancelledSources st' old = Some (''Request '' @ rid @ '' cancelled'')"
      unfolding c' using ok m by (rule superseded_source_cancelled)
    show "old \<notin> snd ` set (cancelTokens st')"
      using 2(2) c by force
    assume "p_source q = old"
    with c have l: "cancelledSources (run later st') (p_source q)
        = Some (''Request '' @ rid @ '' cancelled'')"
      by (simp add: run_keeps_cancelled)
    from cancelled_call_settles_cancelled [OF l]
    show "transport_settles q server (run later st')
        = Rejected (Cancel (''Request '' @ rid @ '' cancelled''))"
      "fst (settle_call q (transport_settles q server (run later st')) t (run later st'))
        = (Thrown (Raw (Cancel (''Request '' @ rid @ '' cancelled''))),
           call_onFinally (p_callbacks q))"
      by simp_all
  qed
  have 4: "p_requestId p = rid \<and> p_source p = nextSource st
          \<and> map_of (cancelTokens st') rid = Some (p_source p)
          \<and> cancelledSources st' (p_source p) = None
          \<and> map_of (cancelTokens st) rid \<noteq> Some (p_source p)"
    if a: "fst (begin_call v url body config cbs now st) = Await p"
  proof -
    from begin_call_pending [OF a] have p: "p_requestId p = rid" "p_source p = nextSource st"
      unfolding assms(2) by simp_all
    have t: "map_of (cancelTokens st') rid = Some (nextSource st)"
      unfolding assms(2,3) begin_call_tokens a by (simp add: AList.update_conv')
    then have "(rid, nextSource st) \<in> set (cancelTokens st')"
      by (rule map_of_SomeD)
    with 2(2) have n: "cancelledSources st' (nextSource st) = None"
      by force
    have "map_of (cancelTokens st) rid \<noteq> Some (nextSource st)"
    proof
      assume "map_of (cancelTokens st) rid = Some (nextSource st)"
      then have "(rid, nextSource st) \<in> set (cancelTokens st)"
        by (rule map_of_SomeD)
      with ok show False
        by (force simp: registry_ok_def)
    qed
    with p t n show ?thesis
      by simp
  qed
  have 5: "map_of (cancelTokens st') rid = None"
    if a: "fst (begin_call v url body config cbs now st) = Done out cbevs"
    unfolding assms(2,3) begin_call_tokens a by (simp add: AList.delete_conv')
  from 1 2 3 4 5 show ?thesis
    by (intro conjI impI) blast+
qed

theorem registry_one_live_handle_per_id_witness:
  "cancelledSources
     (snd (begin_call GET ''/tasks'' JNull
             (Some \<lparr>cache = None, requestId = Some ''list:123'', params = None,
                    headers = Map.empty\<rparr>) None 2
             (run [Issue GET ''/tasks'' JNull
                     (Some \<lparr>cache = None, requestId = Some ''list:123'', params = None,
                            headers = Map.empty\<rparr>) None 1]
                (initial_state Map.empty)))) 0
     = Some ''Request list:123 cancelled''
   \<and> map_of (cancelTokens
     (snd (begin_call GET ''/tasks'' JNull
             (Some \<lparr>cache = None, requestId = Some ''list:123'', params = None,
                    headers = Map.empty\<rparr>) None 2
             (run [Issue GET ''/tasks'' JNull
                     (Some \<lparr>cache = None, requestId = Some ''list:123'', params = None,
                            headers = Map.empty\<rparr>) None 1]
                (initial_state Map.empty))))) ''list:123'' = Some 1
   \<and> transport_settles
       \<lparr>p_verb = GET, p_url = ''/tasks'',
        p_config = Some \<lparr>cache = None, requestId = Some ''list:123'', params = None,
                         headers = Map.empty\<rparr>,
        p_callbacks = None, p_requestId = ''list:123'', p_source = 0\<rparr>
       (Fulfilled (JArr []))
       (snd (begin_call GET ''/tasks'' JNull
             (Some \<lparr>cache = None, requestId = Some ''list:123'', params = None,
                    headers = Map.empty\<rparr>) None 2
             (run [Issue GET ''/tasks'' JNull
                     (Some \<lparr>cache = None, requestId = Some ''list:123'', params = None,
                            headers = Map.empty\<rparr>) None 1]
                (initial_state Map.empty))))
     = Rejected (Cancel ''Request list:123 cancelled'')"
proof -
  let ?cfg = "Some \<lparr>cache = None, requestId = Some ''list:123'', params = None,
                    headers = Map.empty\<rparr>"
  let ?st = "run [Issue GET ''/tasks'' JNull ?cfg None 1] (initial_state Map.empty)"
  let ?b = "begin_call GET ''/tasks'' JNull ?cfg None 2 ?st"
  let ?q = "\<lparr>p_verb = GET, p_url = ''/tasks'', p_config = ?cfg,
        p_callbacks = None, p_requestId = ''list:123'', p_source = 0\<rparr>"
  let ?p = "\<lparr>p_verb = GET, p_url = ''/tasks'', p_config = ?cfg,
        p_callbacks = None, p_requestId = ''list:123'', p_source = 1\<rparr>"
  have rid: "''list:123'' = resolveRequestId GET ''/tasks'' ?cfg 2"
    by (simp add: resolveRequestId_def)
  have rid1: "resolveRequestId GET ''/tasks'' ?cfg 1 = ''list:123''"
    by (simp add: resolveRequestId_def)
  have cr: "cacheRequested ?cfg = None"
    by (simp add: cacheRequested_def)
  have reg: "cancelTokens ?st = [(''list:123'', 0)]" "nextSource ?st = 1"
    by (simp_all add: run_def get_begin_unfold Let_def rid1 cr initial_state_def cancelRequest_def)
  then have old: "map_of (cancelTokens ?st) ''list:123'' = Some 0"
    by simp
  have aw: "fst ?b = Await ?p"
    using reg(2) by (simp add: get_begin_unfold Let_def rid [symmetric] cr)
  have run0: "run [] (snd ?b) = snd ?b"
    by (simp add: run_def)
  note t = registry_one_live_handle_per_id
    [OF refl rid refl, of "[Issue GET ''/tasks'' JNull ?cfg None 1]" Map.empty JNull None
      0 ?q "Fulfilled (JArr [])" "[]" 0 ?p]
  have c: "map_of (cancelTokens ?st) ''list:123'' = Some 0 \<longrightarrow>
          cancelledSources (snd ?b) 0 = Some (''Request '' @ ''list:123'' @ '' cancelled'')
          \<and> 0 \<notin> snd ` set (cancelTokens (snd ?b))
          \<and> (p_source ?q = 0 \<longrightarrow>
               transport_settles ?q (Fulfilled (JArr [])) (run [] (snd ?b))
                 = Rejected (Cancel (''Request '' @ ''list:123'' @ '' cancelled''))
               \<and> fst (settle_call ?q (transport_settles ?q (Fulfilled (JArr [])) (run [] (snd ?b))) 0
                     (run [] (snd ?b)))
                 = (Thrown (Raw (Cancel (''Request '' @ ''list:123'' @ '' cancelled''))),
                    call_onFinally (p_callbacks ?q)))"
    by (rule t [THEN conjunct2, THEN conjunct2, THEN conjunct2, THEN conjunct2, THEN conjunct1])
  have a: "fst ?b = Await ?p \<longrightarrow>
          p_requestId ?p = ''list:123'' \<and> p_source ?p = nextSource ?st
          \<and> map_of (cancelTokens (snd ?b)) ''list:123'' = Some (p_source ?p)
          \<and> cancelledSources (snd ?b) (p_source ?p) = None
          \<and> map_of (cancelTokens ?st) ''list:123'' \<noteq> Some (p_source ?p)"
    by (rule t [THEN conjunct2, THEN conjunct2, THEN conjunct2, THEN conjunct2, THEN conjunct2,
          THEN conjunct1])
  have q0: "p_source ?q = 0"
    by simp
  from c old q0 have
    "cancelledSources (snd ?b) 0 = Some (''Request '' @ ''list:123'' @ '' cancelled'')"
    "transport_settles ?q (Fulfilled (JArr [])) (run [] (snd ?b))
       = Rejected (Cancel (''Request '' @ ''list:123'' @ '' cancelled''))"
    by blast+
  moreover from a aw have "map_of (cancelTokens (snd ?b)) ''list:123'' = Some (p_source ?p)"
    by blast
  ultimately show ?thesis
    unfolding run0 by simp
qed

end
